theory Spec2Isabelle
  imports Main "HOL-Library.AList"
begin

section \<open>JavaScript values and strings\<close>

text \<open>
  Request bodies, claims and upstream replies are JSON values. A JavaScript string is a
  sequence of UTF-16 code units; the model uses \<open>string\<close> and reads a \<open>char\<close> as the
  code unit of the same number (the code units below 256), so \<open>length\<close> is the \<open>.length\<close>
  of the source. An object is the list of its entries with distinct keys; \<open>None\<close> of
  a lookup is the \<open>undefined\<close> of a missing property. Numbers are integral.
\<close>

datatype json =
    JNull
  | JBool bool
  | JNum int
  | JStr string
  | JArr "json list"
  | JObj "(string \<times> json) list"

text \<open>What a function throws: the errors of the JavaScript run time.\<close>

datatype js_error = TypeError | ReferenceError

fun getField :: "string \<Rightarrow> json \<Rightarrow> json option" where
  "getField k (JObj kvs) = map_of kvs k"
| "getField k v = None"

definition isAsciiUpper :: "char \<Rightarrow> bool" where
  "isAsciiUpper c = (let n = (of_char c :: nat) in 65 \<le> n \<and> n \<le> 90)"

definition isAsciiLower :: "char \<Rightarrow> bool" where
  "isAsciiLower c = (let n = (of_char c :: nat) in 97 \<le> n \<and> n \<le> 122)"

definition isAsciiLetter :: "char \<Rightarrow> bool" where
  "isAsciiLetter c = (isAsciiUpper c \<or> isAsciiLower c)"

definition isDigit :: "char \<Rightarrow> bool" where
  "isDigit c = (let n = (of_char c :: nat) in 48 \<le> n \<and> n \<le> 57)"

text \<open>The class \<open>\w\<close> of a regular expression: \<open>[A-Za-z0-9_]\<close>.\<close>

definition isWordChar :: "char \<Rightarrow> bool" where
  "isWordChar c = (isAsciiLetter c \<or> isDigit c \<or> c = CHR ''_'')"

text \<open>
  White space and line terminators, as \<open>String.prototype.trim\<close> and the class \<open>\s\<close>
  know them, among the code units below 256: TAB, LF, VT, FF, CR, SPACE and NBSP.
\<close>

definition isWhitespace :: "char \<Rightarrow> bool" where
  "isWhitespace c = ((of_char c :: nat) \<in> {9, 10, 11, 12, 13, 32, 160})"

definition asciiLowerTable :: "(char \<times> char) list" where
  "asciiLowerTable = zip ''ABCDEFGHIJKLMNOPQRSTUVWXYZ'' ''abcdefghijklmnopqrstuvwxyz''"

text \<open>
  Case folding of a regular expression with the \<open>i\<close> flag: a code unit outside ASCII
  never matches an ASCII letter, so only \<open>A-Z\<close> are folded.
\<close>

definition foldCase :: "char \<Rightarrow> char" where
  "foldCase c = (case map_of asciiLowerTable c of Some l \<Rightarrow> l | None \<Rightarrow> c)"

text \<open>
  \<open>String.prototype.toLowerCase\<close> on the code units below 256: \<open>A-Z\<close>, and the
  Latin-1 capitals 192 to 222 but the multiplication sign 215, move up by 32.
\<close>

definition isLatin1Upper :: "char \<Rightarrow> bool" where
  "isLatin1Upper c = (let n = (of_char c :: nat) in 192 \<le> n \<and> n \<le> 222 \<and> n \<noteq> 215)"

definition toLowerChar :: "char \<Rightarrow> char" where
  "toLowerChar c =
     (case map_of asciiLowerTable c of
        Some l \<Rightarrow> l
      | None \<Rightarrow> if isLatin1Upper c then char_of ((of_char c :: nat) + 32) else c)"

definition toLowerCase :: "string \<Rightarrow> string" where
  "toLowerCase s = map toLowerChar s"

definition trim :: "string \<Rightarrow> string" where
  "trim s = rev (dropWhile isWhitespace (rev (dropWhile isWhitespace s)))"

text \<open>\<open>s.substring(0, n)\<close> for \<open>n \<ge> 0\<close>.\<close>

definition substring0 :: "nat \<Rightarrow> string \<Rightarrow> string" where
  "substring0 n s = take n s"

text \<open>\<open>startsWithCI p s\<close>: the pattern \<open>p\<close>, written in lower case, matches at the
  start of \<open>s\<close> under the \<open>i\<close> flag.\<close>

fun startsWithCI :: "string \<Rightarrow> string \<Rightarrow> bool" where
  "startsWithCI [] s = True"
| "startsWithCI (p # ps) [] = False"
| "startsWithCI (p # ps) (c # cs) = (foldCase c = p \<and> startsWithCI ps cs)"

fun startsWith :: "string \<Rightarrow> string \<Rightarrow> bool" where
  "startsWith [] s = True"
| "startsWith (p # ps) [] = False"
| "startsWith (p # ps) (c # cs) = (c = p \<and> startsWith ps cs)"

text \<open>The tails of a string, one per position at which an unanchored match may start.\<close>

fun tails :: "string \<Rightarrow> string list" where
  "tails [] = [[]]"
| "tails (c # cs) = (c # cs) # tails cs"

definition containsCI :: "string \<Rightarrow> string \<Rightarrow> bool" where
  "containsCI p s = list_ex (startsWithCI p) (tails s)"

definition containsStr :: "string \<Rightarrow> string \<Rightarrow> bool" where
  "containsStr p s = list_ex (startsWith p) (tails s)"

section \<open>lib/security.ts: sanitizers\<close>

subsection \<open>DOMPurify\<close>

datatype scan_mode = InText | InTag | InScriptTag | InScriptBody

text \<open>The opening tag of a script element: \<open>script\<close> behind the \<open><\<close>, then the end of
  the tag name.\<close>

definition opensScript :: "string \<Rightarrow> bool" where
  "opensScript cs =
     (startsWithCI ''script'' cs \<and>
      (case drop 6 cs of [] \<Rightarrow> True | d # _ \<Rightarrow> \<not> isWordChar d))"

text \<open>
  Modelled from the spec: \<open>DOMPurify.sanitize(input, {ALLOWED_TAGS: [], ALLOWED_ATTR: [],
  KEEP_CONTENT: true})\<close> of the package isomorphic-dompurify, which security.ts imports
  and src/ does not hold. The spec says that it "strips all markup", "tags stripped, text
  content kept", and that \<open><script>alert(1)</script>hello\<close> becomes \<open>hello\<close>: a tag runs
  from \<open><\<close> to the next \<open>>\<close> and is dropped, the text outside tags is kept as it is, and
  a script element is dropped with its content. A tag or a script element that never
  closes is dropped to the end of the input.
\<close>

fun purifyFrom :: "scan_mode \<Rightarrow> string \<Rightarrow> string" where
  "purifyFrom m [] = []"
| "purifyFrom InText (c # cs) =
     (if c = CHR ''<''
      then (if opensScript cs then purifyFrom InScriptTag cs else purifyFrom InTag cs)
      else c # purifyFrom InText cs)"
| "purifyFrom InTag (c # cs) =
     (if c = CHR ''>'' then purifyFrom InText cs else purifyFrom InTag cs)"
| "purifyFrom InScriptTag (c # cs) =
     (if c = CHR ''>'' then purifyFrom InScriptBody cs else purifyFrom InScriptTag cs)"
| "purifyFrom InScriptBody (c # cs) =
     (if c = CHR ''<'' \<and> startsWithCI ''/script'' cs
      then purifyFrom InTag cs else purifyFrom InScriptBody cs)"

definition DOMPurify_sanitize :: "string \<Rightarrow> string" where
  "DOMPurify_sanitize input = purifyFrom InText input"

subsection \<open>sanitizeHtml, sanitizeText, sanitizeEmail\<close>

definition sanitizeHtml :: "string \<Rightarrow> string" where
  "sanitizeHtml input = DOMPurify_sanitize input"

text \<open>\<open>sanitizeText\<close> takes any value: what is not a string gives the empty string.\<close>

fun sanitizeText :: "json \<Rightarrow> string" where
  "sanitizeText (JStr input) = substring0 10000 (trim (DOMPurify_sanitize input))"
| "sanitizeText v = []"

text \<open>
  The pattern \<open>/^[a-zA-Z0-9._%+-]+@[a-zA-Z0-9.-]+\.[a-zA-Z]{2,}$/\<close>, by the places where
  the string may be cut: the local part ends at position \<open>i\<close>, where the \<open>@\<close> stands, and
  the domain at position \<open>j\<close> of the rest, where the last dot stands.
\<close>

definition isLocalChar :: "char \<Rightarrow> bool" where
  "isLocalChar c = (isAsciiLetter c \<or> isDigit c \<or> c \<in> set ''._%+-'')"

definition isDomainChar :: "char \<Rightarrow> bool" where
  "isDomainChar c = (isAsciiLetter c \<or> isDigit c \<or> c \<in> set ''.-'')"

definition matchDomainTld :: "string \<Rightarrow> bool" where
  "matchDomainTld r =
     list_ex (\<lambda>j. take j r \<noteq> [] \<and> list_all isDomainChar (take j r) \<and>
                  r ! j = CHR ''.'' \<and>
                  2 \<le> length (drop (Suc j) r) \<and> list_all isAsciiLetter (drop (Suc j) r))
       [0..<length r]"

definition emailRegex_test :: "string \<Rightarrow> bool" where
  "emailRegex_test s =
     list_ex (\<lambda>i. take i s \<noteq> [] \<and> list_all isLocalChar (take i s) \<and>
                  s ! i = CHR ''@'' \<and> matchDomainTld (drop (Suc i) s))
       [0..<length s]"

fun sanitizeEmail :: "json \<Rightarrow> string" where
  "sanitizeEmail (JStr email) =
     (let cleaned = sanitizeText (JStr email)
      in if emailRegex_test cleaned then toLowerCase cleaned else [])"
| "sanitizeEmail v = []"

text \<open>
  The email pattern in the spec's words: a local part, \<open>@\<close>, a domain, a dot and a
  top-level domain of two or more letters.
\<close>

definition emailPattern :: "string \<Rightarrow> bool" where
  "emailPattern s =
     (\<exists>localpart domain tld.
        s = localpart @ ''@'' @ domain @ ''.'' @ tld \<and>
        localpart \<noteq> [] \<and> list_all isLocalChar localpart \<and>
        domain \<noteq> [] \<and> list_all isDomainChar domain \<and>
        2 \<le> length tld \<and> list_all isAsciiLetter tld)"

subsection \<open>Regular expressions of the heuristic checks\<close>

text \<open>
  An unanchored search tries every position of the input: \<open>searchRegex m s\<close> holds when
  the matcher \<open>m\<close> accepts at some cut of \<open>s\<close> into the text up to the position and
  the text from it on. The pattern objects are created by each call, so every \<open>test\<close>
  starts at position 0, whatever the \<open>g\<close> flag.
\<close>

definition searchRegex :: "(string \<Rightarrow> string \<Rightarrow> bool) \<Rightarrow> string \<Rightarrow> bool" where
  "searchRegex m s = list_ex (\<lambda>i. m (take i s) (drop i s)) [0..<Suc (length s)]"

text \<open>The assertion \<open>\b\<close> between the text up to a position and the text from it on.\<close>

definition wordBoundary :: "string \<Rightarrow> string \<Rightarrow> bool" where
  "wordBoundary pre post =
     ((pre \<noteq> [] \<and> isWordChar (last pre)) \<noteq> (post \<noteq> [] \<and> isWordChar (hd post)))"

definition sqlKeywords :: "string list" where
  "sqlKeywords = [''select'', ''insert'', ''update'', ''delete'', ''drop'', ''create'',
                  ''alter'', ''exec'', ''execute'']"

text \<open>\<open>/(\b(SELECT|INSERT|UPDATE|DELETE|DROP|CREATE|ALTER|EXEC|EXECUTE)\b)/gi\<close>\<close>

definition sqlKeywordAt :: "string \<Rightarrow> string \<Rightarrow> bool" where
  "sqlKeywordAt pre post =
     (wordBoundary pre post \<and>
      list_ex (\<lambda>kw. startsWithCI kw post \<and>
                     wordBoundary (pre @ take (length kw) post) (drop (length kw) post))
        sqlKeywords)"

text \<open>\<open>/(--|\#|\/\*|\*\/)/g\<close>\<close>

definition sqlCommentAt :: "string \<Rightarrow> string \<Rightarrow> bool" where
  "sqlCommentAt pre post = list_ex (\<lambda>p. startsWith p post) [''--'', ''#'', ''/*'', ''*/'']"

text \<open>\<open>/('|";|";--|' OR '1'='1)/gi\<close>; the code unit 34 is the double quote.\<close>

definition sqlQuoteAt :: "string \<Rightarrow> string \<Rightarrow> bool" where
  "sqlQuoteAt pre post =
     list_ex (\<lambda>p. startsWithCI p post)
       [[CHR 0x27], [CHR 0x22, CHR '';''], [CHR 0x22, CHR '';'', CHR ''-'', CHR ''-''],
        [CHR 0x27] @ '' or '' @ [CHR 0x27] @ ''1'' @ [CHR 0x27] @ ''='' @ [CHR 0x27] @ ''1'']"

definition containsSqlInjection :: "string \<Rightarrow> bool" where
  "containsSqlInjection input =
     list_ex (\<lambda>pattern. searchRegex pattern input) [sqlKeywordAt, sqlCommentAt, sqlQuoteAt]"

text \<open>
  \<open>/<script\b[^<]*(?:(?!<\/script>)<[^<]*)*<\/script>/gi\<close>: an opening \<open><script\<close> at
  a word boundary, then any text in which no \<open><\<close> starts a closing tag, then the closing
  tag; so the text behind the opening holds a closing tag, and the match ends at the first.
\<close>

definition xssScriptAt :: "string \<Rightarrow> string \<Rightarrow> bool" where
  "xssScriptAt pre post =
     (startsWithCI ''<script'' post \<and>
      wordBoundary (pre @ take 7 post) (drop 7 post) \<and>
      containsCI ''</script>'' (drop 7 post))"

text \<open>\<open>/javascript:/gi\<close>\<close>

definition xssJavascriptAt :: "string \<Rightarrow> string \<Rightarrow> bool" where
  "xssJavascriptAt pre post = startsWithCI ''javascript:'' post"

text \<open>
  \<open>/on\w+\s*=/gi\<close>: the word run behind \<open>on\<close> is taken whole, since what follows it is
  white space or \<open>=\<close>, neither a word character.
\<close>

definition xssHandlerAt :: "string \<Rightarrow> string \<Rightarrow> bool" where
  "xssHandlerAt pre post =
     (startsWithCI ''on'' post \<and>
      takeWhile isWordChar (drop 2 post) \<noteq> [] \<and>
      startsWith ''='' (dropWhile isWhitespace (dropWhile isWordChar (drop 2 post))))"

text \<open>\<open>/<iframe/gi\<close>\<close>

definition xssIframeAt :: "string \<Rightarrow> string \<Rightarrow> bool" where
  "xssIframeAt pre post = startsWithCI ''<iframe'' post"

text \<open>\<open>/eval\(/gi\<close>\<close>

definition xssEvalAt :: "string \<Rightarrow> string \<Rightarrow> bool" where
  "xssEvalAt pre post = startsWithCI ''eval('' post"

definition containsXss :: "string \<Rightarrow> bool" where
  "containsXss input =
     list_ex (\<lambda>pattern. searchRegex pattern input)
       [xssScriptAt, xssJavascriptAt, xssHandlerAt, xssIframeAt, xssEvalAt]"

subsection \<open>Schemas\<close>

record chat_message =
  role :: string
  content :: string

text \<open>
  One element of \<open>messages\<close>: an object whose \<open>role\<close> is one of the three names and
  whose \<open>content\<close> is a string of 1 to 5000 code units, replaced by its sanitized text.
\<close>

definition chatRoles :: "string list" where
  "chatRoles = [''user'', ''assistant'', ''system'']"

fun parseChatMessage :: "json \<Rightarrow> chat_message option" where
  "parseChatMessage (JObj kvs) =
     (case (map_of kvs ''role'', map_of kvs ''content'') of
        (Some (JStr r), Some (JStr c)) \<Rightarrow>
          if r \<in> set chatRoles \<and> 1 \<le> length c \<and> length c \<le> 5000
          then Some \<lparr>role = r, content = sanitizeText (JStr c)\<rparr>
          else None
      | _ \<Rightarrow> None)"
| "parseChatMessage v = None"

text \<open>\<open>those\<close> of a list of options: all of them, or nothing when one is missing.\<close>

fun allOrNothing :: "'a option list \<Rightarrow> 'a list option" where
  "allOrNothing [] = Some []"
| "allOrNothing (None # xs) = None"
| "allOrNothing (Some x # xs) = (case allOrNothing xs of None \<Rightarrow> None | Some ys \<Rightarrow> Some (x # ys))"

text \<open>\<open>chatMessageSchema.safeParse\<close>: \<open>None\<close> is \<open>success: false\<close>.\<close>

definition chatMessageSchema_safeParse :: "json \<Rightarrow> chat_message list option" where
  "chatMessageSchema_safeParse body =
     (case body of
        JObj kvs \<Rightarrow>
          (case map_of kvs ''messages'' of
             Some (JArr ms) \<Rightarrow>
               if 1 \<le> length ms \<and> length ms \<le> 50
               then allOrNothing (map parseChatMessage ms)
               else None
           | _ \<Rightarrow> None)
      | _ \<Rightarrow> None)"

text \<open>
  The issues of a failed validation carry the field and the kind of violation; the
  wording of their messages, and the email check of \<open>z.string().email()\<close>, are zod's
  and are parameters of the contact schema.
\<close>

datatype zod_issue =
    InvalidType string
  | TooSmall string
  | TooBig string
  | InvalidEmail string

record zod =
  isEmail :: "string \<Rightarrow> bool"
  issueMessage :: "zod_issue \<Rightarrow> string"

record contact_form =
  name :: string
  email :: string
  message :: string
  website :: "string option"

definition checkString :: "string \<Rightarrow> nat \<Rightarrow> nat \<Rightarrow> json option \<Rightarrow> zod_issue list" where
  "checkString field lo hi v =
     (case v of
        Some (JStr s) \<Rightarrow>
          (if length s < lo then [TooSmall field]
           else if hi < length s then [TooBig field] else [])
      | _ \<Rightarrow> [InvalidType field])"

definition checkEmail :: "zod \<Rightarrow> json option \<Rightarrow> zod_issue list" where
  "checkEmail Z v =
     (case v of
        Some (JStr s) \<Rightarrow> (if isEmail Z s then [] else [InvalidEmail ''email''])
      | _ \<Rightarrow> [InvalidType ''email''])"

definition checkOptionalString :: "string \<Rightarrow> json option \<Rightarrow> zod_issue list" where
  "checkOptionalString field v =
     (case v of None \<Rightarrow> [] | Some (JStr s) \<Rightarrow> [] | _ \<Rightarrow> [InvalidType field])"

definition optionalString :: "json option \<Rightarrow> string option" where
  "optionalString v = (case v of Some (JStr s) \<Rightarrow> Some s | _ \<Rightarrow> None)"

text \<open>A value that may be \<open>undefined\<close>, as JSON writes it.\<close>

definition orNull :: "json option \<Rightarrow> json" where
  "orNull v = (case v of None \<Rightarrow> JNull | Some x \<Rightarrow> x)"

text \<open>\<open>contactFormSchema.safeParse\<close>: the issues of all fields (\<open>Inl\<close>), or the
  transformed fields.\<close>

definition contactFormSchema_safeParse :: "zod \<Rightarrow> json \<Rightarrow> zod_issue list + contact_form" where
  "contactFormSchema_safeParse Z body =
     (case body of
        JObj kvs \<Rightarrow>
          (let issues = checkString ''name'' 1 100 (map_of kvs ''name'')
                      @ checkEmail Z (map_of kvs ''email'')
                      @ checkString ''message'' 10 5000 (map_of kvs ''message'')
                      @ checkOptionalString ''website'' (map_of kvs ''website'')
           in if issues = []
              then Inr \<lparr>name = sanitizeText (orNull (map_of kvs ''name'')),
                        email = sanitizeEmail (orNull (map_of kvs ''email'')),
                        message = sanitizeText (orNull (map_of kvs ''message'')),
                        website = optionalString (map_of kvs ''website'')\<rparr>
              else Inl issues)
      | _ \<Rightarrow> Inl [InvalidType []])"

subsection \<open>Clean strings\<close>

text \<open>
  An already-clean string in the spec's words: no markup (none of the characters
  \<open><\<close>, \<open>>\<close> and \<open>&\<close> that write tags and entities), already trimmed, and within
  the length limit.
\<close>

definition cleanString :: "string \<Rightarrow> bool" where
  "cleanString s =
     (list_all (\<lambda>c. c \<notin> set ''<>&'') s \<and>
      (s = [] \<or> \<not> (isWhitespace (hd s) \<or> isWhitespace (last s))) \<and>
      length s \<le> 10000)"

section \<open>lib/rate-limit.ts\<close>

text \<open>
  Times are the milliseconds of \<open>Date.now()\<close>. A request carries its headers, by their
  lower-case names, and the parts of its URL.
\<close>

record url =
  origin :: string
  pathname :: string
  searchParams :: "(string \<times> string) list"

record request =
  reqHeaders :: "(string \<times> string) list"
  reqUrl :: url

text \<open>\<open>x || y\<close> on strings that may be missing: the empty string is falsy.\<close>

definition orElse :: "string option \<Rightarrow> string \<Rightarrow> string" where
  "orElse x y = (case x of None \<Rightarrow> y | Some v \<Rightarrow> if v = [] then y else v)"

text \<open>
  The module names \<open>NextRequest\<close> by \<open>import type { NextRequest } from 'next/server'\<close>.
  A type-only import is erased when the module is compiled, and next.config.mjs has
  \<open>typescript: { ignoreBuildErrors: true }\<close>, so the build goes through; at run time the
  name has no binding. \<open>NextRequest\<close> is what the name is bound to: the instance test
  of a class, or nothing.
\<close>

definition NextRequest :: "(request \<Rightarrow> bool) option" where
  "NextRequest = None"

text \<open>\<open>forwarded?.split(',')[0]?.trim() || realIp || 'unknown'\<close>, the body of both
  branches of \<open>getClientIp\<close>.\<close>

definition ipFromHeaders :: "request \<Rightarrow> string" where
  "ipFromHeaders req =
     (let forwarded = map_of (reqHeaders req) ''x-forwarded-for'';
          realIp = map_of (reqHeaders req) ''x-real-ip''
      in orElse (map_option (\<lambda>f. trim (takeWhile (\<lambda>c. c \<noteq> CHR '','') f)) forwarded)
           (orElse realIp ''unknown''))"

text \<open>\<open>getClientIp\<close> starts with \<open>req instanceof NextRequest\<close>: evaluating a name
  without a binding throws a \<open>ReferenceError\<close>.\<close>

definition getClientIp :: "request \<Rightarrow> js_error + string" where
  "getClientIp req =
     (case NextRequest of
        None \<Rightarrow> Inl ReferenceError
      | Some instanceOf \<Rightarrow>
          if instanceOf req then Inr (ipFromHeaders req) else Inr (ipFromHeaders req))"

subsection \<open>RateLimiterMemory\<close>

record limiter_record =
  remainingPts :: int
  resetAt :: int

record RateLimiterMemory =
  points :: int
  duration :: int
  store :: "string \<Rightarrow> limiter_record option"

record RateLimiterRes =
  remainingPoints :: int
  msBeforeNext :: int

text \<open>The promise of \<open>consume\<close> resolves or rejects, both with a \<open>RateLimiterRes\<close>.\<close>

datatype consume_result = Resolved RateLimiterRes | Rejected RateLimiterRes

definition currentRecord :: "RateLimiterMemory \<Rightarrow> int \<Rightarrow> string \<Rightarrow> limiter_record" where
  "currentRecord L now key =
     (let fresh = \<lparr>remainingPts = points L, resetAt = now + duration L * 1000\<rparr>
      in case store L key of
           None \<Rightarrow> fresh
         | Some r \<Rightarrow> if resetAt r \<le> now then fresh else r)"

text \<open>
  Modelled from the spec: \<open>RateLimiterMemory.consume\<close> of the package
  rate-limiter-flexible, which rate-limit.ts imports and src/ does not hold. The spec
  (4.1): "if the client has no record, or its window has fully elapsed, initialize
  remaining = limit, reset window start to now. Decrement remaining by 1 if > 0 and report
  allowed; otherwise report denied with the current resetSeconds = time until the window
  elapses." The record keeps the remaining points and the instant of the next reset.
\<close>

definition consume :: "RateLimiterMemory \<Rightarrow> int \<Rightarrow> string \<Rightarrow> consume_result \<times> RateLimiterMemory" where
  "consume L now key =
     (let r = currentRecord L now key
      in if 0 < remainingPts r
         then (Resolved \<lparr>remainingPoints = remainingPts r - 1, msBeforeNext = resetAt r - now\<rparr>,
               L\<lparr>store := (store L)(key \<mapsto> r\<lparr>remainingPts := remainingPts r - 1\<rparr>)\<rparr>)
         else (Rejected \<lparr>remainingPoints = 0, msBeforeNext = resetAt r - now\<rparr>,
               L\<lparr>store := (store L)(key \<mapsto> r)\<rparr>))"

definition newRateLimiterMemory :: "int \<Rightarrow> int \<Rightarrow> RateLimiterMemory" where
  "newRateLimiterMemory p d = \<lparr>points = p, duration = d, store = Map.empty\<rparr>"

subsection \<open>rateLimit and its headers\<close>

datatype limiter_type = chat | contact | admin | general

record rateLimiters =
  chatLimiter :: RateLimiterMemory
  contactLimiter :: RateLimiterMemory
  adminLimiter :: RateLimiterMemory
  generalLimiter :: RateLimiterMemory

definition initialRateLimiters :: rateLimiters where
  "initialRateLimiters =
     \<lparr>chatLimiter = newRateLimiterMemory 10 60,
      contactLimiter = newRateLimiterMemory 5 600,
      adminLimiter = newRateLimiterMemory 30 60,
      generalLimiter = newRateLimiterMemory 60 60\<rparr>"

fun getLimiter :: "rateLimiters \<Rightarrow> limiter_type \<Rightarrow> RateLimiterMemory" where
  "getLimiter R chat = chatLimiter R"
| "getLimiter R contact = contactLimiter R"
| "getLimiter R admin = adminLimiter R"
| "getLimiter R general = generalLimiter R"

fun setLimiter :: "rateLimiters \<Rightarrow> limiter_type \<Rightarrow> RateLimiterMemory \<Rightarrow> rateLimiters" where
  "setLimiter R chat L = R\<lparr>chatLimiter := L\<rparr>"
| "setLimiter R contact L = R\<lparr>contactLimiter := L\<rparr>"
| "setLimiter R admin L = R\<lparr>adminLimiter := L\<rparr>"
| "setLimiter R general L = R\<lparr>generalLimiter := L\<rparr>"

record rate_limit_result =
  success :: bool
  limit :: int
  remaining :: int
  reset :: int

text \<open>\<open>Math.ceil(ms / 1000)\<close> of a whole number of milliseconds.\<close>

definition ceilSeconds :: "int \<Rightarrow> int" where
  "ceilSeconds ms = - ((- ms) div 1000)"

text \<open>The \<open>try\<close> block of \<open>rateLimit\<close>, for the client identifier \<open>ip\<close> and the
  limiter of the type: \<open>consume\<close> resolves or rejects, and both give a result.\<close>

definition rateLimitTry ::
  "rateLimiters \<Rightarrow> int \<Rightarrow> string \<Rightarrow> limiter_type \<Rightarrow> rate_limit_result \<times> rateLimiters" where
  "rateLimitTry R now ip type =
     (let limiter = getLimiter R type
      in case consume limiter now ip of
           (Resolved result, limiter') \<Rightarrow>
             (\<lparr>success = True, limit = points limiter,
               remaining = remainingPoints result,
               reset = ceilSeconds (msBeforeNext result)\<rparr>,
              setLimiter R type limiter')
         | (Rejected error, limiter') \<Rightarrow>
             (\<lparr>success = False, limit = points limiter,
               remaining = 0,
               reset = ceilSeconds (msBeforeNext error)\<rparr>,
              setLimiter R type limiter'))"

text \<open>\<open>rateLimit\<close> calls \<open>getClientIp\<close> before its \<open>try\<close>: what that call throws,
  \<open>rateLimit\<close> throws (its promise rejects), and the limiters stay as they are.\<close>

definition rateLimit ::
  "rateLimiters \<Rightarrow> int \<Rightarrow> request \<Rightarrow> limiter_type
     \<Rightarrow> js_error + (rate_limit_result \<times> rateLimiters)" where
  "rateLimit R now req type =
     (case getClientIp req of
        Inl err \<Rightarrow> Inl err
      | Inr ip \<Rightarrow> Inr (rateLimitTry R now ip type))"

text \<open>\<open>String(n)\<close> of a whole number.\<close>

fun showNat :: "nat \<Rightarrow> string" where
  "showNat n =
     (if n < 10 then [''0123456789'' ! n]
      else showNat (n div 10) @ [''0123456789'' ! (n mod 10)])"

definition showInt :: "int \<Rightarrow> string" where
  "showInt i = (if i < 0 then CHR ''-'' # showNat (nat (- i)) else showNat (nat i))"

text \<open>\<open>String(x || 0)\<close>: a number that is 0 is falsy and replaced by 0.\<close>

definition getRateLimitHeaders :: "rate_limit_result \<Rightarrow> (string \<times> string) list" where
  "getRateLimitHeaders result =
     [(''X-RateLimit-Limit'', showInt (if limit result = 0 then 0 else limit result)),
      (''X-RateLimit-Remaining'', showInt (if remaining result = 0 then 0 else remaining result)),
      (''X-RateLimit-Reset'', showInt (if reset result = 0 then 0 else reset result))]"

subsection \<open>SimpleRateLimiter\<close>

text \<open>
  The \<open>Map\<close> of the class is the list of its entries in insertion order: \<open>set\<close> of a
  key it holds keeps the entry's place, \<open>set\<close> of a new key appends, as
  \<open>AList.update\<close> does.
\<close>

record SimpleRateLimiter =
  requests :: "(string \<times> int list) list"
  maxRequests :: nat
  windowMs :: int

definition newSimpleRateLimiter :: "nat \<Rightarrow> int \<Rightarrow> SimpleRateLimiter" where
  "newSimpleRateLimiter m w = \<lparr>requests = [], maxRequests = m, windowMs = w\<rparr>"

text \<open>\<open>cleanup\<close> reads the clock again: \<open>now\<close> is its own reading.\<close>

definition cleanup :: "SimpleRateLimiter \<Rightarrow> int \<Rightarrow> SimpleRateLimiter" where
  "cleanup S now =
     S\<lparr>requests :=
         filter (\<lambda>(key, validRequests). validRequests \<noteq> [])
           (map (\<lambda>(key, reqs). (key, filter (\<lambda>time. now - time < windowMs S) reqs))
              (requests S))\<rparr>"

text \<open>\<open>check S now later key\<close>: the clock reads \<open>now\<close> in \<open>check\<close> and \<open>later\<close> in the
  \<open>cleanup\<close> it may call.\<close>

definition check :: "SimpleRateLimiter \<Rightarrow> int \<Rightarrow> int \<Rightarrow> string \<Rightarrow> bool \<times> SimpleRateLimiter" where
  "check S now later key =
     (let reqs = (case map_of (requests S) key of None \<Rightarrow> [] | Some r \<Rightarrow> r);
          validRequests = filter (\<lambda>time. now - time < windowMs S) reqs
      in if maxRequests S \<le> length validRequests then (False, S)
         else (let S' = S\<lparr>requests := AList.update key (validRequests @ [now]) (requests S)\<rparr>
               in (True, if 10000 < length (requests S') then cleanup S' later else S')))"

definition simpleRateLimiters :: "limiter_type \<Rightarrow> SimpleRateLimiter" where
  "simpleRateLimiters type =
     (case type of
        chat \<Rightarrow> newSimpleRateLimiter 10 60000
      | contact \<Rightarrow> newSimpleRateLimiter 5 600000
      | admin \<Rightarrow> newSimpleRateLimiter 30 60000
      | general \<Rightarrow> newSimpleRateLimiter 60 60000)"

section \<open>API route handlers\<close>

text \<open>
  \<open>NextResponse.json(body, {status, headers})\<close>; the status is 200 when none is given.
  What the handler writes with \<open>console.log\<close> and \<open>console.error\<close> is returned beside
  the response: the label of the line and the detail logged with it.
\<close>

record response =
  status :: int
  body :: json
  headers :: "(string \<times> string) list"

datatype log_line = LogInfo string | LogError string string

definition jsonResponse :: "json \<Rightarrow> int \<Rightarrow> (string \<times> string) list \<Rightarrow> response" where
  "jsonResponse b st hs = \<lparr>status = st, body = b, headers = hs\<rparr>"

definition errorBody :: "string \<Rightarrow> json" where
  "errorBody msg = JObj [(''error'', JStr msg)]"

definition messageBody :: "string \<Rightarrow> json" where
  "messageBody msg = JObj [(''message'', JStr msg)]"

definition okBody :: json where
  "okBody = JObj [(''ok'', JBool True)]"

text \<open>Truthiness of a value that may be \<open>undefined\<close>.\<close>

fun truthy :: "json option \<Rightarrow> bool" where
  "truthy None = False"
| "truthy (Some JNull) = False"
| "truthy (Some (JBool b)) = b"
| "truthy (Some (JNum n)) = (n \<noteq> 0)"
| "truthy (Some (JStr s)) = (s \<noteq> [])"
| "truthy (Some v) = True"

subsection \<open>app/api/chat/route.ts\<close>

record env =
  GROQ_API_KEY :: "string option"
  VERCEL :: "string option"
  NODE_ENV :: "string option"

text \<open>
  What the two backends do is an input of the handler. Groq: \<open>create\<close> returns a
  completion, of which the handler reads \<open>choices[0]?.message?.content\<close>, or something
  in the inner \<open>try\<close> throws an error, of which the handler reads \<open>error?.message\<close>.
  Ollama: \<open>fetch\<close> throws, or answers with a status that is not ok and a text (\<open>None\<close>
  when reading it throws), or answers ok with a JSON document (\<open>None\<close> when parsing
  it throws).
\<close>

datatype groq_outcome = GroqReturns "string option" | GroqThrows "string option"

datatype ollama_outcome =
    FetchThrows
  | OllamaNotOk int "string option"
  | OllamaOk "json option"

record upstream =
  groq :: groq_outcome
  ollama :: ollama_outcome

text \<open>The loop over the validated messages: the response of the first message that a
  check flags.\<close>

fun chatSecurityChecks :: "chat_message list \<Rightarrow> response option" where
  "chatSecurityChecks [] = None"
| "chatSecurityChecks (msg # msgs) =
     (if containsXss (content msg)
      then Some (jsonResponse (errorBody ''Message contains potentially harmful content.'') 400 [])
      else if containsSqlInjection (content msg)
      then Some (jsonResponse (errorBody ''Message contains suspicious patterns.'') 400 [])
      else chatSecurityChecks msgs)"

definition internalServerError :: "(response \<times> log_line list)" where
  "internalServerError =
     (jsonResponse (errorBody ''Internal server error'') 500 [],
      [LogError ''Chat API error:'' []])"

definition callGroq :: "rate_limit_result \<Rightarrow> groq_outcome \<Rightarrow> response \<times> log_line list" where
  "callGroq rateLimitResult g =
     (case g of
        GroqReturns assistantMessage \<Rightarrow>
          (if \<not> truthy (map_option JStr assistantMessage)
           then (jsonResponse (errorBody ''No response from AI'') 500 [],
                 [LogInfo ''Using Groq API on Vercel'',
                  LogInfo ''Groq client created, calling API...'',
                  LogInfo ''Groq API response received'',
                  LogError ''No message in response:'' []])
           else (jsonResponse (JObj [(''message'', orNull (map_option JStr assistantMessage))]) 200
                   (getRateLimitHeaders rateLimitResult),
                 [LogInfo ''Using Groq API on Vercel'',
                  LogInfo ''Groq client created, calling API...'',
                  LogInfo ''Groq API response received'']))
      | GroqThrows errorMessage \<Rightarrow>
          (jsonResponse (errorBody (''AI Error: '' @ orElse errorMessage ''Unknown error'')) 500 [],
           [LogInfo ''Using Groq API on Vercel'',
            LogError ''Groq error:'' (orElse errorMessage [])]))"

text \<open>\<open>data.message?.content\<close>: reading \<open>message\<close> of \<open>null\<close> throws (the outer
  \<open>None\<close>); a missing or \<open>null\<close> message gives \<open>undefined\<close>.\<close>

definition ollamaContent :: "json \<Rightarrow> json option option" where
  "ollamaContent data =
     (if data = JNull then None
      else case getField ''message'' data of
             None \<Rightarrow> Some None
           | Some JNull \<Rightarrow> Some None
           | Some m \<Rightarrow> Some (getField ''content'' m))"

definition callOllama :: "rate_limit_result \<Rightarrow> ollama_outcome \<Rightarrow> response \<times> log_line list" where
  "callOllama rateLimitResult ol =
     (case ol of
        FetchThrows \<Rightarrow>
          (fst internalServerError, LogInfo ''Using Ollama for localhost'' # snd internalServerError)
      | OllamaNotOk st None \<Rightarrow>
          (fst internalServerError, LogInfo ''Using Ollama for localhost'' # snd internalServerError)
      | OllamaNotOk st (Some errorData) \<Rightarrow>
          (jsonResponse
             (errorBody ''Ollama is not running. Please start Ollama or deploy to Vercel with Groq API key.'')
             st [],
           [LogInfo ''Using Ollama for localhost'', LogError ''Ollama API error:'' errorData])
      | OllamaOk None \<Rightarrow>
          (fst internalServerError, LogInfo ''Using Ollama for localhost'' # snd internalServerError)
      | OllamaOk (Some data) \<Rightarrow>
          (case ollamaContent data of
             None \<Rightarrow>
               (fst internalServerError,
                LogInfo ''Using Ollama for localhost'' # snd internalServerError)
           | Some assistantMessage \<Rightarrow>
               if \<not> truthy assistantMessage
               then (jsonResponse (errorBody ''No response from AI'') 500 [],
                     [LogInfo ''Using Ollama for localhost''])
               else (jsonResponse (JObj [(''message'', orNull assistantMessage)]) 200
                       (getRateLimitHeaders rateLimitResult),
                     [LogInfo ''Using Ollama for localhost''])))"

text \<open>\<open>isVercel && groqApiKey\<close>\<close>

definition useGroq :: "env \<Rightarrow> bool" where
  "useGroq e = (VERCEL e = Some ''1'' \<and> orElse (GROQ_API_KEY e) [] \<noteq> [])"

text \<open>
  The handler after \<open>rateLimit\<close> has answered: \<open>reqBody\<close> is what \<open>req.json()\<close>
  returns, \<open>None\<close> when it throws.
\<close>

definition chat_POST_limited ::
  "env \<Rightarrow> upstream \<Rightarrow> rate_limit_result \<Rightarrow> json option \<Rightarrow> response \<times> log_line list" where
  "chat_POST_limited e up rateLimitResult reqBody =
     (if \<not> success rateLimitResult
      then (jsonResponse
              (errorBody (''Rate limit exceeded. Please wait '' @ showInt (reset rateLimitResult)
                          @ '' seconds.''))
              429 (getRateLimitHeaders rateLimitResult), [])
      else case reqBody of
             None \<Rightarrow> internalServerError
           | Some b \<Rightarrow>
               (case chatMessageSchema_safeParse b of
                  None \<Rightarrow>
                    (jsonResponse (errorBody ''Invalid request format. Please check your message.'')
                       400 [], [])
                | Some messages \<Rightarrow>
                    (case chatSecurityChecks messages of
                       Some rejected \<Rightarrow> (rejected, [])
                     | None \<Rightarrow>
                         if useGroq e then callGroq rateLimitResult (groq up)
                         else callOllama rateLimitResult (ollama up))))"

text \<open>The handler with the limiters it consumes from: the response, the log and the
  limiters after the call.\<close>

definition chat_POST ::
  "env \<Rightarrow> upstream \<Rightarrow> rateLimiters \<Rightarrow> int \<Rightarrow> request \<Rightarrow> json option
     \<Rightarrow> (response \<times> log_line list) \<times> rateLimiters" where
  "chat_POST e up R now req reqBody =
     (case rateLimit R now req chat of
        Inl err \<Rightarrow> (internalServerError, R)
      | Inr (rateLimitResult, R') \<Rightarrow> (chat_POST_limited e up rateLimitResult reqBody, R'))"

subsection \<open>app/api/contact/route.ts\<close>

fun joinWith :: "string \<Rightarrow> string list \<Rightarrow> string" where
  "joinWith sep [] = []"
| "joinWith sep [x] = x"
| "joinWith sep (x # y # ys) = x @ sep @ joinWith sep (y # ys)"

fun contactSecurityChecks :: "string list \<Rightarrow> response option" where
  "contactSecurityChecks [] = None"
| "contactSecurityChecks (input # inputs) =
     (if containsXss input
      then Some (jsonResponse (messageBody ''Input contains potentially harmful content.'') 400 [])
      else if containsSqlInjection input
      then Some (jsonResponse (messageBody ''Input contains suspicious patterns.'') 400 [])
      else contactSecurityChecks inputs)"

definition unexpectedError :: "response \<times> log_line list" where
  "unexpectedError =
     (jsonResponse (messageBody ''Unexpected error. Please try again later.'') 500 [],
      [LogError ''Contact API error:'' []])"

text \<open>\<open>typeof body.website === "string" && body.website.trim().length > 0\<close>, for a
  body that is not \<open>null\<close>.\<close>

definition honeypotFilled :: "json \<Rightarrow> bool" where
  "honeypotFilled b =
     (case getField ''website'' b of
        Some (JStr w) \<Rightarrow> 0 < length (trim w)
      | _ \<Rightarrow> False)"

text \<open>What the handler does with a body that passed the honeypot check: validation,
  the heuristic checks, the length check and the log line.\<close>

definition processContact ::
  "zod \<Rightarrow> rate_limit_result \<Rightarrow> json \<Rightarrow> response \<times> log_line list" where
  "processContact Z rateLimitResult b =
     (case contactFormSchema_safeParse Z b of
        Inl issues \<Rightarrow>
          (jsonResponse
             (messageBody (''Validation failed: '' @ joinWith '', '' (map (issueMessage Z) issues)))
             400 [], [])
      | Inr form \<Rightarrow>
          (case contactSecurityChecks [name form, email form, message form] of
             Some rejected \<Rightarrow> (rejected, [])
           | None \<Rightarrow>
               if length (message form) < 10
               then (jsonResponse (messageBody ''Message must be at least 10 characters long.'')
                       400 [], [])
               else (jsonResponse okBody 200 (getRateLimitHeaders rateLimitResult),
                     [LogInfo (''Contact submission (sanitized): '' @ name form @ '' '' @ email form
                               @ '' '' @ substring0 50 (message form) @ ''...'')])))"

definition contact_POST_limited ::
  "zod \<Rightarrow> rate_limit_result \<Rightarrow> json option \<Rightarrow> response \<times> log_line list" where
  "contact_POST_limited Z rateLimitResult reqBody =
     (if \<not> success rateLimitResult
      then (jsonResponse
              (messageBody (''Too many requests. Please try again in ''
                            @ showInt (reset rateLimitResult) @ '' seconds.''))
              429 (getRateLimitHeaders rateLimitResult), [])
      else case reqBody of
             None \<Rightarrow> unexpectedError
           | Some JNull \<Rightarrow> unexpectedError
           | Some b \<Rightarrow>
               if honeypotFilled b
               then (jsonResponse okBody 200 (getRateLimitHeaders rateLimitResult), [])
               else processContact Z rateLimitResult b)"

definition contact_POST ::
  "zod \<Rightarrow> rateLimiters \<Rightarrow> int \<Rightarrow> request \<Rightarrow> json option
     \<Rightarrow> (response \<times> log_line list) \<times> rateLimiters" where
  "contact_POST Z R now req reqBody =
     (case rateLimit R now req contact of
        Inl err \<Rightarrow> (unexpectedError, R)
      | Inr (rateLimitResult, R') \<Rightarrow> (contact_POST_limited Z rateLimitResult reqBody, R'))"

section \<open>middleware.ts\<close>

text \<open>
  Modelled from the spec: \<open>createRouteMatcher\<close> of the package @clerk/nextjs, which
  middleware.ts imports and src/ does not hold. The spec (4.4): "match request path
  against an ordered set of glob/regex-style patterns", first match wins. A pattern
  that ends in \<open>(.*)\<close> matches the paths that start with the text before it; any other
  pattern matches the path equal to it, with one closing delimiter allowed; letters
  match without regard to case.
\<close>

definition matchRoute :: "string \<Rightarrow> string \<Rightarrow> bool" where
  "matchRoute pattern path =
     (let n = length pattern - 4
      in if drop n pattern = ''(.*)''
         then startsWithCI (map foldCase (take n pattern)) path
         else startsWithCI (map foldCase pattern) path \<and>
              drop (length pattern) path \<in> set [[], ''/'', ''#'', ''?''])"

definition createRouteMatcher :: "string list \<Rightarrow> request \<Rightarrow> bool" where
  "createRouteMatcher routes req = list_ex (\<lambda>pattern. matchRoute pattern (pathname (reqUrl req))) routes"

definition isPublicRoute :: "request \<Rightarrow> bool" where
  "isPublicRoute =
     createRouteMatcher
       [''/'', ''/sign-in(.*)'', ''/sign-up(.*)'', ''/api/public(.*)'', ''/mcp-security'',
        ''/security(.*)'', ''/mcp-integration(.*)'']"

definition isAdminRoute :: "request \<Rightarrow> bool" where
  "isAdminRoute = createRouteMatcher [''/admin(.*)'', ''/api/admin(.*)'']"

record cookie =
  cookieName :: string
  cookieValue :: string
  httpOnly :: bool
  secure :: bool
  sameSite :: string

text \<open>A response of the middleware: \<open>NextResponse.next()\<close> has no location,
  \<open>NextResponse.redirect(url)\<close> has the URL it sends the browser to.\<close>

record next_response =
  location :: "url option"
  respHeaders :: "(string \<times> string) list"
  cookies :: "cookie list"

definition NextResponse_next :: next_response where
  "NextResponse_next = \<lparr>location = None, respHeaders = [], cookies = []\<rparr>"

definition NextResponse_redirect :: "url \<Rightarrow> next_response" where
  "NextResponse_redirect u = \<lparr>location = Some u, respHeaders = [], cookies = []\<rparr>"

definition addSecurityHeaders :: "env \<Rightarrow> next_response \<Rightarrow> next_response" where
  "addSecurityHeaders e resp =
     resp\<lparr>respHeaders :=
            AList.update ''X-Powered-By'' []
              (AList.update ''X-DNS-Prefetch-Control'' ''on'' (respHeaders resp)),
          cookies :=
            map (\<lambda>c. \<lparr>cookieName = cookieName c, cookieValue = cookieValue c, httpOnly = True,
                       secure = (NODE_ENV e = Some ''production''), sameSite = ''lax''\<rparr>)
              (cookies resp)\<rparr>"

text \<open>What \<open>auth()\<close> resolves to: the user's id, and the claims of the session.\<close>

record auth =
  userId :: "string option"
  sessionClaims :: "json option"

text \<open>The URL as one string, \<open>req.url\<close>.\<close>

definition href :: "url \<Rightarrow> string" where
  "href u =
     origin u @ pathname u @
     (if searchParams u = [] then []
      else ''?'' @ joinWith ''&'' (map (\<lambda>(k, v). k @ ''='' @ v) (searchParams u)))"

text \<open>\<open>new URL(path, req.url)\<close> for an absolute path: the origin of the request.\<close>

definition newURL :: "string \<Rightarrow> request \<Rightarrow> url" where
  "newURL path req = \<lparr>origin = origin (reqUrl req), pathname = path, searchParams = []\<rparr>"

definition signInUrl :: "request \<Rightarrow> url" where
  "signInUrl req =
     (newURL ''/sign-in'' req)\<lparr>searchParams := AList.update ''redirect_url'' (href (reqUrl req)) []\<rparr>"

text \<open>
  \<open>roleOf\<close> is \<open>sessionClaims?.publicMetadata?.role\<close>, and \<open>roleClaim\<close> is
  \<open>(publicMetadata?.role || 'viewer').toLowerCase()\<close>: a role that is missing or
  falsy gives \<open>viewer\<close>; a truthy role that is not a string has no \<open>toLowerCase\<close>, and
  the call throws.
\<close>

definition roleOf :: "auth \<Rightarrow> json option" where
  "roleOf a =
     (case sessionClaims a of
        None \<Rightarrow> None
      | Some claims \<Rightarrow>
          (case getField ''publicMetadata'' claims of
             None \<Rightarrow> None
           | Some publicMetadata \<Rightarrow> getField ''role'' publicMetadata))"

definition roleClaim :: "auth \<Rightarrow> js_error + string" where
  "roleClaim a =
     (if \<not> truthy (roleOf a) then Inr (toLowerCase ''viewer'')
      else case roleOf a of Some (JStr r) \<Rightarrow> Inr (toLowerCase r) | _ \<Rightarrow> Inl TypeError)"

text \<open>\<open>!userId\<close>\<close>

definition noUser :: "auth \<Rightarrow> bool" where
  "noUser a = (orElse (userId a) [] = [])"

text \<open>The block of the admin routes: a response when it returns one, \<open>None\<close> when
  the middleware goes on.\<close>

definition adminGate :: "auth \<Rightarrow> request \<Rightarrow> js_error + next_response option" where
  "adminGate a req =
     (if noUser a then Inr (Some (NextResponse_redirect (signInUrl req)))
      else case roleClaim a of
             Inl err \<Rightarrow> Inl err
           | Inr r \<Rightarrow>
               if r \<noteq> ''admin'' then Inr (Some (NextResponse_redirect (newURL ''/portfolio'' req)))
               else Inr None)"

text \<open>The callback of \<open>clerkMiddleware\<close>; both calls of \<open>auth()\<close> resolve to \<open>a\<close>.\<close>

definition middleware :: "env \<Rightarrow> auth \<Rightarrow> request \<Rightarrow> js_error + next_response" where
  "middleware e a req =
     (if isPublicRoute req then Inr (addSecurityHeaders e NextResponse_next)
      else case (if isAdminRoute req then adminGate a req else Inr None) of
             Inl err \<Rightarrow> Inl err
           | Inr (Some resp) \<Rightarrow> Inr resp
           | Inr None \<Rightarrow>
               if noUser a then Inr (NextResponse_redirect (signInUrl req))
               else if startsWith ''/portfolio'' (pathname (reqUrl req)) \<and> noUser a
               then Inr (NextResponse_redirect (newURL ''/sign-in'' req))
               else Inr (addSecurityHeaders e NextResponse_next))"

section \<open>Runs of calls\<close>

text \<open>
  The limiters are shared by all clients. A run of the \<open>try\<close> block of \<open>rateLimit\<close>
  is a list of calls in the order in which they reach a limiter, each with the reading
  of the clock and the client identifier; \<open>clientResults k\<close> keeps what the calls of
  the client with identifier \<open>k\<close> are told.
\<close>

fun clientResults ::
  "string \<Rightarrow> rateLimiters \<Rightarrow> limiter_type \<Rightarrow> (int \<times> string) list \<Rightarrow> rate_limit_result list" where
  "clientResults k R type [] = []"
| "clientResults k R type (call # calls) =
     (case rateLimitTry R (fst call) (snd call) type of
        (result, R') \<Rightarrow>
          (if snd call = k then [result] else []) @ clientResults k R' type calls)"

text \<open>A run of the chat handler: the requests in the order in which they arrive, and
  the responses in that order.\<close>

record chat_call =
  callTime :: int
  callRequest :: request
  callBody :: "json option"
  callUpstream :: upstream

fun chatResponses :: "env \<Rightarrow> rateLimiters \<Rightarrow> chat_call list \<Rightarrow> response list" where
  "chatResponses e R [] = []"
| "chatResponses e R (call # calls) =
     (case chat_POST e (callUpstream call) R (callTime call) (callRequest call) (callBody call) of
        ((resp, logged), R') \<Rightarrow> resp # chatResponses e R' calls)"

text \<open>A call of \<open>check\<close>: the two readings of the clock and the key.\<close>

record check_call =
  checkTime :: int
  cleanupTime :: int
  checkKey :: string

fun clientChecks :: "string \<Rightarrow> SimpleRateLimiter \<Rightarrow> check_call list \<Rightarrow> bool list" where
  "clientChecks k S [] = []"
| "clientChecks k S (call # calls) =
     (case check S (checkTime call) (cleanupTime call) (checkKey call) of
        (ok, S') \<Rightarrow> (if checkKey call = k then [ok] else []) @ clientChecks k S' calls)"

text \<open>The limiter after a run.\<close>

fun checkAll :: "SimpleRateLimiter \<Rightarrow> check_call list \<Rightarrow> SimpleRateLimiter" where
  "checkAll S [] = S"
| "checkAll S (call # calls) =
     checkAll (snd (check S (checkTime call) (cleanupTime call) (checkKey call))) calls"

text \<open>The time stamps that the limiter holds for a key.\<close>

definition requestsOf :: "SimpleRateLimiter \<Rightarrow> string \<Rightarrow> int list" where
  "requestsOf S key = (case map_of (requests S) key of None \<Rightarrow> [] | Some r \<Rightarrow> r)"

section \<open>Windows and quotas\<close>

text \<open>
  A window is the time span of \<open>W\<close> seconds from an instant \<open>t0\<close> at which the client's
  quota is full: the limiter holds no record of the client, or the window of its record
  has elapsed. The calls of a run are within the window when the clock does not go back
  and every call reads a time from \<open>t0\<close> on and before \<open>t0 + W\<close>.
\<close>

definition freshClient :: "RateLimiterMemory \<Rightarrow> string \<Rightarrow> int \<Rightarrow> bool" where
  "freshClient L k t0 = (case store L k of None \<Rightarrow> True | Some r \<Rightarrow> resetAt r \<le> t0)"

definition withinWindow :: "int \<Rightarrow> int \<Rightarrow> int list \<Rightarrow> bool" where
  "withinWindow t0 len ts = (sorted ts \<and> list_all (\<lambda>t. t0 \<le> t \<and> t < t0 + len) ts)"

text \<open>
  The quota \<open>c\<close> of client \<open>k\<close> in the window from \<open>t0\<close>, when no call reads a time
  before \<open>lo\<close>: all points while the client is fresh, otherwise the points of its
  record, whose window covers the one from \<open>t0\<close> and started no later than \<open>lo\<close>.
\<close>

definition quota :: "RateLimiterMemory \<Rightarrow> string \<Rightarrow> int \<Rightarrow> int \<Rightarrow> int \<Rightarrow> bool" where
  "quota L k t0 lo c =
     (case store L k of
        None \<Rightarrow> c = points L
      | Some r \<Rightarrow>
          if resetAt r \<le> t0 then c = points L
          else remainingPts r = c \<and> t0 + duration L * 1000 \<le> resetAt r \<and>
               resetAt r \<le> lo + duration L * 1000)"

text \<open>What a client with quota \<open>c\<close> is told by its next call, and by its next calls.\<close>

definition expected :: "int \<Rightarrow> int \<Rightarrow> rate_limit_result \<Rightarrow> bool" where
  "expected W c r =
     (if 0 < c then success r \<and> remaining r = c - 1
      else \<not> success r \<and> remaining r = 0 \<and> 0 < reset r \<and> reset r \<le> W)"

fun expectedAll :: "int \<Rightarrow> int \<Rightarrow> rate_limit_result list \<Rightarrow> bool" where
  "expectedAll W c [] = True"
| "expectedAll W c (r # rs) = (expected W c r \<and> expectedAll W (if 0 < c then c - 1 else c) rs)"

text \<open>
  The \<open>Map\<close> of a \<open>SimpleRateLimiter\<close> holds every key once. In the window from \<open>t0\<close>
  a time stamp of client \<open>k\<close> is old (a window length or more before \<open>t0\<close>) or new
  (from \<open>t0\<close> on); \<open>inWindow\<close> counts the new ones.
\<close>

definition distinctKeys :: "SimpleRateLimiter \<Rightarrow> bool" where
  "distinctKeys S = distinct (map fst (requests S))"

definition oldOrNew :: "SimpleRateLimiter \<Rightarrow> string \<Rightarrow> int \<Rightarrow> bool" where
  "oldOrNew S k t0 = list_all (\<lambda>x. windowMs S \<le> t0 - x \<or> t0 \<le> x) (requestsOf S k)"

definition inWindow :: "SimpleRateLimiter \<Rightarrow> string \<Rightarrow> int \<Rightarrow> nat" where
  "inWindow S k t0 = length (filter (\<lambda>x. t0 \<le> x) (requestsOf S k))"

subsection \<open>Example states\<close>

text \<open>A request of the client 203.0.113.7 behind a proxy, and limiters in which that
  client has used up its chat quota until the instant 60000.\<close>

definition exampleRequest :: request where
  "exampleRequest =
     \<lparr>reqHeaders = [(''x-forwarded-for'', ''203.0.113.7, 10.0.0.1'')],
      reqUrl = \<lparr>origin = ''https://example.org'', pathname = ''/api/chat'', searchParams = []\<rparr>\<rparr>"

definition exhaustedLimiters :: rateLimiters where
  "exhaustedLimiters =
     initialRateLimiters
       \<lparr>chatLimiter :=
          (chatLimiter initialRateLimiters)
            \<lparr>store := [''203.0.113.7'' \<mapsto> \<lparr>remainingPts = 0, resetAt = 60000\<rparr>]\<rparr>\<rparr>"

section \<open>Paths of the handlers\<close>

text \<open>
  A chat message that the schema accepts, in the spec's words: an object with a valid
  role and a content of length 1 to 5000.
\<close>

fun validChatMessage :: "json \<Rightarrow> bool" where
  "validChatMessage (JObj kvs) =
     (case (map_of kvs ''role'', map_of kvs ''content'') of
        (Some (JStr r), Some (JStr c)) \<Rightarrow>
          r \<in> set [''user'', ''assistant'', ''system''] \<and> 1 \<le> length c \<and> length c \<le> 5000
      | _ \<Rightarrow> False)"
| "validChatMessage v = False"










subsection \<open>Example requests\<close>


definition chatBody :: "string \<Rightarrow> json" where
  "chatBody c = JObj [(''messages'', JArr [JObj [(''role'', JStr ''user''), (''content'', JStr c)]])]"

definition vercelEnv :: env where
  "vercelEnv = \<lparr>GROQ_API_KEY = Some ''gsk_key'', VERCEL = Some ''1'', NODE_ENV = Some ''production''\<rparr>"

definition devEnv :: env where
  "devEnv = \<lparr>GROQ_API_KEY = None, VERCEL = None, NODE_ENV = Some ''development''\<rparr>"


definition adminRequest :: request where
  "adminRequest =
     \<lparr>reqHeaders = [],
      reqUrl = \<lparr>origin = ''https://example.org'', pathname = ''/admin/x'', searchParams = []\<rparr>\<rparr>"

definition userWithRole :: "string \<Rightarrow> auth" where
  "userWithRole r =
     \<lparr>userId = Some ''user_1'',
      sessionClaims = Some (JObj [(''publicMetadata'', JObj [(''role'', JStr r)])])\<rparr>"

text \<open>Eleven chat requests of one client within eleven seconds.\<close>

definition elevenChatCalls :: "chat_call list" where
  "elevenChatCalls =
     map (\<lambda>t. \<lparr>callTime = t, callRequest = exampleRequest, callBody = Some (chatBody ''hello''),
                 callUpstream = \<lparr>groq = GroqReturns (Some ''Hi!''), ollama = FetchThrows\<rparr>\<rparr>)
       [0, 1000, 2000, 3000, 4000, 5000, 6000, 7000, 8000, 9000, 10000]"


section \<open>Properties of the sanitizers\<close>

subsection \<open>The email pattern\<close>

lemma matchDomainTld_iff:
  "matchDomainTld r \<longleftrightarrow>
     (\<exists>domain tld. r = domain @ ''.'' @ tld \<and> domain \<noteq> [] \<and> list_all isDomainChar domain \<and>
        2 \<le> length tld \<and> list_all isAsciiLetter tld)"
proof
  assume "matchDomainTld r"
  then obtain j where j: "j < length r" "take j r \<noteq> []" "list_all isDomainChar (take j r)"
      "r ! j = CHR ''.''" "2 \<le> length (drop (Suc j) r)" "list_all isAsciiLetter (drop (Suc j) r)"
    unfolding matchDomainTld_def list_ex_iff by auto
  have "r = take j r @ ''.'' @ drop (Suc j) r"
    using j(1,4) id_take_nth_drop [of j r] by simp
  with j show "\<exists>domain tld. r = domain @ ''.'' @ tld \<and> domain \<noteq> [] \<and> list_all isDomainChar domain \<and>
        2 \<le> length tld \<and> list_all isAsciiLetter tld"
    by blast
next
  assume "\<exists>domain tld. r = domain @ ''.'' @ tld \<and> domain \<noteq> [] \<and> list_all isDomainChar domain \<and>
        2 \<le> length tld \<and> list_all isAsciiLetter tld"
  then obtain d t where r: "r = d @ ''.'' @ t" and d: "d \<noteq> []" "list_all isDomainChar d"
    and t: "2 \<le> length t" "list_all isAsciiLetter t"
    by blast
  have "length d < length r" using r by simp
  moreover have "take (length d) r = d" "r ! length d = CHR ''.''" "drop (Suc (length d)) r = t"
    using r by (simp_all add: nth_append)
  ultimately show "matchDomainTld r"
    unfolding matchDomainTld_def list_ex_iff using d t
    by (intro bexI [of _ "length d"]) simp_all
qed

lemma emailRegex_test_iff: "emailRegex_test s \<longleftrightarrow> emailPattern s"
proof
  assume "emailRegex_test s"
  then obtain i where i: "i < length s" "take i s \<noteq> []" "list_all isLocalChar (take i s)"
      "s ! i = CHR ''@''" "matchDomainTld (drop (Suc i) s)"
    unfolding emailRegex_test_def list_ex_iff by auto
  from i(5) obtain d t where r: "drop (Suc i) s = d @ ''.'' @ t" and d: "d \<noteq> []" "list_all isDomainChar d"
    and t: "2 \<le> length t" "list_all isAsciiLetter t"
    unfolding matchDomainTld_iff by blast
  have "s = take i s @ ''@'' @ d @ ''.'' @ t"
    using i(1,4) r id_take_nth_drop [of i s] by simp
  with i d t show "emailPattern s"
    unfolding emailPattern_def by blast
next
  assume "emailPattern s"
  then obtain l d t where s: "s = l @ ''@'' @ d @ ''.'' @ t" and l: "l \<noteq> []" "list_all isLocalChar l"
    and d: "d \<noteq> []" "list_all isDomainChar d"
    and t: "2 \<le> length t" "list_all isAsciiLetter t"
    unfolding emailPattern_def by blast
  have "length l < length s" using s by simp
  moreover have "take (length l) s = l" "s ! length l = CHR ''@''" "drop (Suc (length l)) s = d @ ''.'' @ t"
    using s by (simp_all add: nth_append)
  moreover have "matchDomainTld (d @ ''.'' @ t)"
    unfolding matchDomainTld_iff using d t by blast
  ultimately show "emailRegex_test s"
    unfolding emailRegex_test_def list_ex_iff using l
    by (intro bexI [of _ "length l"]) simp_all
qed

subsection \<open>Stripping and trimming\<close>

lemma purifyFrom_text: "CHR ''<'' \<notin> set s \<Longrightarrow> purifyFrom InText s = s"
  by (induction s) auto

lemma purifyFrom_no_lt: "CHR ''<'' \<notin> set (purifyFrom m s)"
  by (induction m s rule: purifyFrom.induct) auto

lemma trim_trimmed:
  "s = [] \<or> (\<not> isWhitespace (hd s) \<and> \<not> isWhitespace (last s)) \<Longrightarrow> trim s = s"
proof (cases s)
  case Nil
  then show ?thesis by (simp add: trim_def)
next
  case (Cons a as)
  assume "s = [] \<or> (\<not> isWhitespace (hd s) \<and> \<not> isWhitespace (last s))"
  with Cons have h: "\<not> isWhitespace a" "\<not> isWhitespace (last s)" by auto
  have 1: "dropWhile isWhitespace s = s" using Cons h by simp
  have "rev s \<noteq> []" using Cons by simp
  then obtain b bs where rs: "rev s = b # bs" by (cases "rev s") auto
  have "b = last s" using rs Cons by (metis hd_rev list.sel(1) list.distinct(1))
  have "dropWhile isWhitespace (b # bs) = b # bs" using h \<open>b = last s\<close> by simp
  then have "dropWhile isWhitespace (rev s) = rev s" by (simp only: rs)
  with 1 show ?thesis by (simp only: trim_def rev_rev_ident)
qed

lemma trim_result:
  "trim s = [] \<or> (\<not> isWhitespace (hd (trim s)) \<and> \<not> isWhitespace (last (trim s)))"
proof -
  let ?d = "dropWhile isWhitespace s"
  let ?e = "dropWhile isWhitespace (rev ?d)"
  show ?thesis
  proof (cases "?d = []")
    case True
    have "trim s = []" unfolding trim_def True by simp
    then show ?thesis by simp
  next
    case False
    then have hd: "\<not> isWhitespace (hd ?d)" by (rule hd_dropWhile)
    have "last ?d = hd (rev ?d)" using False by (simp add: hd_rev)
    have ne: "?e \<noteq> []"
    proof
      assume "?e = []"
      then have "\<forall>x\<in>set (rev ?d). isWhitespace x" by (simp add: dropWhile_eq_Nil_conv)
      moreover have "hd ?d \<in> set ?d" using False by simp
      ultimately show False using hd by simp
    qed
    then have l: "\<not> isWhitespace (hd ?e)" by (rule hd_dropWhile)
    have "last (trim s) = hd ?e" using ne by (simp add: trim_def last_rev)
    moreover have "hd (trim s) = hd ?d"
    proof -
      obtain ys where "rev ?d = ys @ ?e" by (metis takeWhile_dropWhile_id)
      then have "?d = rev ?e @ rev ys" by (metis rev_append rev_rev_ident)
      then have "hd ?d = hd (rev ?e)" using ne by (metis hd_append2 rev_is_Nil_conv)
      then show ?thesis by (simp add: trim_def)
    qed
    moreover have "trim s \<noteq> []" using ne by (simp add: trim_def)
    ultimately show ?thesis using hd l by simp
  qed
qed

lemma trim_idem: "trim (trim s) = trim s"
  using trim_result [of s] by (rule trim_trimmed)

lemma set_trim: "x \<in> set (trim s) \<Longrightarrow> x \<in> set s"
proof -
  assume "x \<in> set (trim s)"
  then have "x \<in> set (dropWhile isWhitespace (rev (dropWhile isWhitespace s)))"
    by (simp add: trim_def)
  then have "x \<in> set (rev (dropWhile isWhitespace s))" by (rule set_dropWhileD)
  then have "x \<in> set (dropWhile isWhitespace s)" by simp
  then show "x \<in> set s" by (rule set_dropWhileD)
qed

lemma trim_append_space:
  assumes "xs \<noteq> []" "\<not> isWhitespace (hd xs)" "\<not> isWhitespace (last xs)"
  shows "trim (xs @ '' '') = xs"
proof -
  obtain a as where xs: "xs = a # as" using assms(1) by (cases xs) auto
  have 1: "dropWhile isWhitespace (xs @ '' '') = xs @ '' ''"
    using assms(2) xs by simp
  have sp: "isWhitespace CHR '' ''" by (simp add: isWhitespace_def)
  obtain b bs where r: "rev xs = b # bs" using assms(1) by (cases "rev xs") auto
  have "b = last xs" using r assms(1) by (metis hd_rev list.sel(1))
  then have "dropWhile isWhitespace (b # bs) = b # bs" using assms(3) by simp
  then have 2: "dropWhile isWhitespace (rev xs) = rev xs" by (simp only: r)
  have "dropWhile isWhitespace (rev (xs @ '' '')) = dropWhile isWhitespace (rev xs)"
    using sp by simp
  then show ?thesis by (simp only: trim_def 1 2 rev_rev_ident)
qed

lemma sanitizeText_fixes_clean:
  assumes "cleanString s"
  shows "sanitizeText (JStr s) = s"
proof -
  have "CHR ''<'' \<notin> set s"
    using assms by (auto simp: cleanString_def list_all_iff)
  then have "DOMPurify_sanitize s = s"
    by (simp add: DOMPurify_sanitize_def purifyFrom_text)
  moreover have "trim s = s"
    using assms by (intro trim_trimmed) (auto simp: cleanString_def)
  moreover have "take 10000 s = s"
    using assms by (simp add: cleanString_def)
  ultimately show ?thesis by (simp add: substring0_def)
qed

lemma sanitizeText_idem_uncut:
  assumes "length (trim (DOMPurify_sanitize s)) \<le> 10000"
  shows "sanitizeText (JStr (sanitizeText (JStr s))) = sanitizeText (JStr s)"
proof -
  let ?t = "trim (DOMPurify_sanitize s)"
  have st: "sanitizeText (JStr s) = ?t" using assms by (simp add: substring0_def)
  have "CHR ''<'' \<notin> set (DOMPurify_sanitize s)"
    by (simp add: DOMPurify_sanitize_def purifyFrom_no_lt)
  then have "CHR ''<'' \<notin> set ?t" using set_trim by blast
  then have "DOMPurify_sanitize ?t = ?t"
    by (simp add: DOMPurify_sanitize_def purifyFrom_text)
  then have "sanitizeText (JStr ?t) = ?t"
    using assms by (simp add: substring0_def trim_idem)
  then show ?thesis by (simp only: st)
qed

lemma list_all_replicate: "list_all (\<lambda>c. c = x) (replicate n x)"
  by (induction n) simp_all

lemma sanitizeText_cut:
  assumes "xs \<noteq> []" "list_all (\<lambda>c. c = CHR ''a'') xs" "length xs = 9999"
  shows "sanitizeText (JStr (xs @ '' b'')) = xs @ '' ''"
    and "sanitizeText (JStr (xs @ '' '')) = xs"
proof -
  have a: "\<not> isWhitespace CHR ''a''" "\<not> isWhitespace CHR ''b''"
    by (simp_all add: isWhitespace_def)
  have all: "\<And>c. c \<in> set xs \<Longrightarrow> c = CHR ''a''"
    using assms(2) by (simp add: list_all_iff)
  have h: "hd xs = CHR ''a''" "last xs = CHR ''a''"
    using assms(1) all by simp_all
  have "CHR ''<'' \<notin> set (xs @ '' b'')" using all by auto
  then have p1: "DOMPurify_sanitize (xs @ '' b'') = xs @ '' b''"
    unfolding DOMPurify_sanitize_def by (rule purifyFrom_text)
  have "hd (xs @ '' b'') = CHR ''a''" using assms(1) h by simp
  moreover have "last (xs @ '' b'') = CHR ''b''" by simp
  ultimately have t1: "trim (xs @ '' b'') = xs @ '' b''"
    using a by (intro trim_trimmed) simp
  have k1: "take 10000 (xs @ '' b'') = xs @ '' ''" using assms(3) by simp
  show "sanitizeText (JStr (xs @ '' b'')) = xs @ '' ''"
    by (simp only: sanitizeText.simps substring0_def p1 t1 k1)
  have "CHR ''<'' \<notin> set (xs @ '' '')" using all by auto
  then have p2: "DOMPurify_sanitize (xs @ '' '') = xs @ '' ''"
    unfolding DOMPurify_sanitize_def by (rule purifyFrom_text)
  have t2: "trim (xs @ '' '') = xs"
    using assms(1) h a by (intro trim_append_space) simp_all
  have k2: "take 10000 xs = xs" using assms(3) by simp
  show "sanitizeText (JStr (xs @ '' '')) = xs"
    by (simp only: sanitizeText.simps substring0_def p2 t2 k2)
qed

text \<open>
  C8, as stated, fails: \<open>sanitizeText\<close> trims first and cuts at 10000 code units
  afterwards, so the cut can leave white space at the end, which a second pass trims
  away. The input is 9999 letters \<open>a\<close>, a space and a \<open>b\<close>: the first pass returns the
  letters and the space, the second the letters alone.
\<close>

theorem sanitizeText_not_idempotent:
  "sanitizeText (JStr (sanitizeText (JStr (replicate 9999 CHR ''a'' @ '' b''))))
     \<noteq> sanitizeText (JStr (replicate 9999 CHR ''a'' @ '' b''))"
proof -
  define A where "A = replicate 9999 CHR ''a''"
  have len: "length A = 9999" by (simp only: A_def length_replicate)
  then have ne: "A \<noteq> []" by auto
  have all: "list_all (\<lambda>c. c = CHR ''a'') A" unfolding A_def by (rule list_all_replicate)
  have s1: "sanitizeText (JStr (A @ '' b'')) = A @ '' ''"
    and s2: "sanitizeText (JStr (A @ '' '')) = A"
    using sanitizeText_cut [OF ne all len] by simp_all
  have "A \<noteq> A @ '' ''" by simp
  then have "sanitizeText (JStr (sanitizeText (JStr (A @ '' b'')))) \<noteq> sanitizeText (JStr (A @ '' b''))"
    by (simp only: s1 s2 simp_thms)
  then show ?thesis unfolding A_def .
qed

text \<open>
  C8, amended: \<open>sanitizeText\<close> returns an already-clean string (no markup, already
  trimmed, within the length limit) unchanged; and sanitizing twice is sanitizing once
  for every string whose stripped and trimmed text is within the limit of 10000 code
  units, so that the cut removes nothing.
\<close>

theorem sanitizeText_clean_unchanged:
  "(cleanString s \<longrightarrow> sanitizeText (JStr s) = s) \<and>
   (length (trim (DOMPurify_sanitize s)) \<le> 10000 \<longrightarrow>
      sanitizeText (JStr (sanitizeText (JStr s))) = sanitizeText (JStr s))"
  using sanitizeText_fixes_clean sanitizeText_idem_uncut by blast

text \<open>The amended C8 at a clean string and at a string with tags and outer spaces.\<close>

theorem sanitizeText_clean_unchanged_witness:
  "cleanString ''hello world'' \<and> sanitizeText (JStr ''hello world'') = ''hello world'' \<and>
   sanitizeText (JStr (sanitizeText (JStr '' <b>hi</b> there ''))) =
     sanitizeText (JStr '' <b>hi</b> there '')"
proof -
  have c: "cleanString ''hello world''" by code_simp
  have t: "trim (DOMPurify_sanitize '' <b>hi</b> there '') = ''hi there''" by code_simp
  have l: "length (trim (DOMPurify_sanitize '' <b>hi</b> there '')) \<le> 10000"
    unfolding t by simp
  have 1: "sanitizeText (JStr ''hello world'') = ''hello world''"
    using sanitizeText_clean_unchanged [of "''hello world''"] c by blast
  have 2: "sanitizeText (JStr (sanitizeText (JStr '' <b>hi</b> there ''))) =
     sanitizeText (JStr '' <b>hi</b> there '')"
    using sanitizeText_clean_unchanged [of "'' <b>hi</b> there ''"] l by blast
  show ?thesis using c 1 2 by blast
qed

text \<open>
  C7: \<open>sanitizeEmail\<close> of \<open>"  USER@Example.COM "\<close> is \<open>"user@example.com"\<close>, of
  \<open>"not-an-email"\<close> the empty string; and for every string input, it sanitizes the
  input and returns the sanitized text in lower case when that text matches the email
  pattern (local part, \<open>@\<close>, domain, dot, a top-level domain of two or more letters),
  the empty string otherwise.
\<close>

theorem sanitizeEmail_pattern:
  "sanitizeEmail (JStr ''  USER@Example.COM '') = ''user@example.com'' \<and>
   sanitizeEmail (JStr ''not-an-email'') = [] \<and>
   sanitizeEmail (JStr input) =
     (if emailPattern (sanitizeText (JStr input))
      then toLowerCase (sanitizeText (JStr input)) else [])"
proof (intro conjI)
  show "sanitizeEmail (JStr ''  USER@Example.COM '') = ''user@example.com''" by code_simp
  show "sanitizeEmail (JStr ''not-an-email'') = []" by code_simp
  show "sanitizeEmail (JStr input) =
     (if emailPattern (sanitizeText (JStr input))
      then toLowerCase (sanitizeText (JStr input)) else [])"
    by (simp only: sanitizeEmail.simps Let_def emailRegex_test_iff)
qed

section \<open>Properties of the rate limiters\<close>

subsection \<open>One call of the limiter\<close>

lemma ceilSeconds_bounds:
  assumes "0 < ms" "ms \<le> W * 1000"
  shows "0 < ceilSeconds ms" "ceilSeconds ms \<le> W"
  using assms unfolding ceilSeconds_def by linarith+

lemma getLimiter_setLimiter: "getLimiter (setLimiter R type L) type = L"
  by (cases type) simp_all

lemma consume_other:
  assumes "key \<noteq> k"
  shows "store (snd (consume L now key)) k = store L k"
    and "points (snd (consume L now key)) = points L"
    and "duration (snd (consume L now key)) = duration L"
  using assms by (simp_all add: consume_def Let_def)

lemma consume_params:
  "points (snd (consume L now key)) = points L"
  "duration (snd (consume L now key)) = duration L"
  by (simp_all add: consume_def Let_def)

lemma quota_other:
  assumes "quota L k t0 lo c" "key \<noteq> k" "lo \<le> now"
  shows "quota (snd (consume L now key)) k t0 now c"
  using assms unfolding quota_def
  by (auto simp: consume_other consume_params split: option.splits if_splits)

lemma consume_same_ok:
  assumes "quota L k t0 lo c" "0 < c" "t0 \<le> now" "lo \<le> now" "now < t0 + duration L * 1000"
  shows "\<exists>ms. fst (consume L now k) = Resolved \<lparr>remainingPoints = c - 1, msBeforeNext = ms\<rparr>"
    and "quota (snd (consume L now k)) k t0 now (c - 1)"
  using assms unfolding quota_def
  by (auto simp: consume_def currentRecord_def Let_def split: option.splits if_splits)

lemma consume_same_denied:
  assumes "quota L k t0 lo c" "c \<le> 0" "t0 \<le> now" "lo \<le> now" "now < t0 + duration L * 1000"
  shows "\<exists>ms. fst (consume L now k) = Rejected \<lparr>remainingPoints = 0, msBeforeNext = ms\<rparr>
            \<and> 0 < ms \<and> ms \<le> duration L * 1000"
    and "quota (snd (consume L now k)) k t0 now c"
  using assms unfolding quota_def
  by (auto simp: consume_def currentRecord_def Let_def split: option.splits if_splits)

lemma rateLimitTry_snd:
  "snd (rateLimitTry R now ip type) =
     setLimiter R type (snd (consume (getLimiter R type) now (ip)))"
  by (auto simp: rateLimitTry_def Let_def split: prod.splits consume_result.splits)

lemma rateLimitTry_fst:
  "fst (rateLimitTry R now ip type) =
     (case fst (consume (getLimiter R type) now (ip)) of
        Resolved result \<Rightarrow>
          \<lparr>success = True, limit = points (getLimiter R type),
            remaining = remainingPoints result, reset = ceilSeconds (msBeforeNext result)\<rparr>
      | Rejected error \<Rightarrow>
          \<lparr>success = False, limit = points (getLimiter R type),
            remaining = 0, reset = ceilSeconds (msBeforeNext error)\<rparr>)"
  by (auto simp: rateLimitTry_def Let_def split: prod.splits consume_result.splits)

lemma rateLimitTry_params:
  "points (getLimiter (snd (rateLimitTry R now ip type)) type) = points (getLimiter R type)"
  "duration (getLimiter (snd (rateLimitTry R now ip type)) type) = duration (getLimiter R type)"
  by (simp_all add: rateLimitTry_snd getLimiter_setLimiter consume_params)

lemma rateLimitTry_quota_other:
  assumes "quota (getLimiter R type) k t0 lo c" "ip \<noteq> k" "lo \<le> now"
  shows "quota (getLimiter (snd (rateLimitTry R now ip type)) type) k t0 now c"
  using quota_other [OF assms] by (simp add: rateLimitTry_snd getLimiter_setLimiter)

lemma rateLimitTry_quota_ok:
  assumes "quota (getLimiter R type) k t0 lo c" "0 < c" "ip = k"
    "t0 \<le> now" "lo \<le> now" "now < t0 + duration (getLimiter R type) * 1000"
  shows "success (fst (rateLimitTry R now ip type))"
    and "remaining (fst (rateLimitTry R now ip type)) = c - 1"
    and "quota (getLimiter (snd (rateLimitTry R now ip type)) type) k t0 now (c - 1)"
proof -
  from consume_same_ok [OF assms(1,2,4,5,6)] assms(3)
  obtain ms where f: "fst (consume (getLimiter R type) now (ip)) =
        Resolved \<lparr>remainingPoints = c - 1, msBeforeNext = ms\<rparr>"
    and q: "quota (snd (consume (getLimiter R type) now (ip))) k t0 now (c - 1)"
    by auto
  show "success (fst (rateLimitTry R now ip type))"
    and "remaining (fst (rateLimitTry R now ip type)) = c - 1"
    by (simp_all add: rateLimitTry_fst f)
  show "quota (getLimiter (snd (rateLimitTry R now ip type)) type) k t0 now (c - 1)"
    using q by (simp add: rateLimitTry_snd getLimiter_setLimiter)
qed

lemma rateLimitTry_quota_denied:
  assumes "quota (getLimiter R type) k t0 lo c" "c \<le> 0" "ip = k"
    "t0 \<le> now" "lo \<le> now" "now < t0 + duration (getLimiter R type) * 1000"
  shows "\<not> success (fst (rateLimitTry R now ip type))"
    and "remaining (fst (rateLimitTry R now ip type)) = 0"
    and "0 < reset (fst (rateLimitTry R now ip type))"
    and "reset (fst (rateLimitTry R now ip type)) \<le> duration (getLimiter R type)"
    and "quota (getLimiter (snd (rateLimitTry R now ip type)) type) k t0 now c"
proof -
  from consume_same_denied [OF assms(1,2,4,5,6)] assms(3)
  obtain ms where f: "fst (consume (getLimiter R type) now (ip)) =
        Rejected \<lparr>remainingPoints = 0, msBeforeNext = ms\<rparr>"
    and ms: "0 < ms" "ms \<le> duration (getLimiter R type) * 1000"
    and q: "quota (snd (consume (getLimiter R type) now (ip))) k t0 now c"
    by auto
  show "\<not> success (fst (rateLimitTry R now ip type))"
    and "remaining (fst (rateLimitTry R now ip type)) = 0"
    by (simp_all add: rateLimitTry_fst f)
  show "0 < reset (fst (rateLimitTry R now ip type))"
    and "reset (fst (rateLimitTry R now ip type)) \<le> duration (getLimiter R type)"
    using ceilSeconds_bounds [OF ms] by (simp_all add: rateLimitTry_fst f)
  show "quota (getLimiter (snd (rateLimitTry R now ip type)) type) k t0 now c"
    using q by (simp add: rateLimitTry_snd getLimiter_setLimiter)
qed

lemma clientResults_quota:
  assumes "quota (getLimiter R type) k t0 lo c"
    and "sorted (map fst calls)"
    and "list_all (\<lambda>call. lo \<le> fst call \<and> t0 \<le> fst call \<and>
            fst call < t0 + duration (getLimiter R type) * 1000) calls"
  shows "expectedAll (duration (getLimiter R type)) c (clientResults k R type calls)"
  using assms
proof (induction calls arbitrary: R lo c)
  case Nil
  then show ?case by simp
next
  case (Cons call calls)
  obtain res R' where rl: "rateLimitTry R (fst call) (snd call) type = (res, R')"
    by (cases "rateLimitTry R (fst call) (snd call) type")
  then have res: "res = fst (rateLimitTry R (fst call) (snd call) type)"
    and R': "R' = snd (rateLimitTry R (fst call) (snd call) type)" by simp_all
  have cr: "clientResults k R type (call # calls) =
      (if snd call = k then [res] else []) @ clientResults k R' type calls"
    by (simp add: rl)
  have d: "duration (getLimiter R' type) = duration (getLimiter R type)"
    by (simp add: R' rateLimitTry_params)
  from Cons.prems(3) have now: "lo \<le> fst call" "t0 \<le> fst call"
    "fst call < t0 + duration (getLimiter R type) * 1000" by simp_all
  have sorted': "sorted (map fst calls)" using Cons.prems(2) by simp
  have rest: "list_all (\<lambda>c'. fst call \<le> fst c' \<and> t0 \<le> fst c' \<and>
            fst c' < t0 + duration (getLimiter R' type) * 1000) calls"
    using Cons.prems(2,3) by (auto simp: list_all_iff d)
  show ?case
  proof (cases "snd call = k")
    case False
    have "quota (getLimiter R' type) k t0 (fst call) c"
      unfolding R' using Cons.prems(1) False now(1) by (rule rateLimitTry_quota_other)
    from Cons.IH [OF this sorted' rest] show ?thesis
      using False by (simp add: cr d del: clientResults.simps)
  next
    case True
    show ?thesis
    proof (cases "0 < c")
      case pos: True
      from rateLimitTry_quota_ok [OF Cons.prems(1) pos True now(2,1,3)]
      have e: "expected (duration (getLimiter R type)) c res"
        and q: "quota (getLimiter R' type) k t0 (fst call) (c - 1)"
        using pos by (simp_all add: expected_def res R')
      from Cons.IH [OF q sorted' rest] e show ?thesis
        using True pos by (simp add: cr d del: clientResults.simps)
    next
      case npos: False
      then have le: "c \<le> 0" by simp
      from rateLimitTry_quota_denied [OF Cons.prems(1) le True now(2,1,3)]
      have e: "expected (duration (getLimiter R type)) c res"
        and q: "quota (getLimiter R' type) k t0 (fst call) c"
        using npos by (simp_all add: expected_def res R')
      from Cons.IH [OF q sorted' rest] e show ?thesis
        using True npos by (simp add: cr d del: clientResults.simps)
    qed
  qed
qed

subsection \<open>SimpleRateLimiter: cleanup and check\<close>

lemma map_of_cleanup:
  "distinct (map fst al) \<Longrightarrow>
   map_of (filter (\<lambda>(key, v). v \<noteq> []) (map (\<lambda>(key, r). (key, f r)) al)) k =
     (case map_of al k of None \<Rightarrow> None | Some r \<Rightarrow> if f r = [] then None else Some (f r))"
proof (induction al)
  case Nil
  then show ?case by simp
next
  case (Cons p al)
  obtain k' r where p: "p = (k', r)" by (cases p)
  from Cons.prems have nin: "k' \<notin> fst ` set al" and d: "distinct (map fst al)"
    by (simp_all add: p)
  from nin have none: "map_of al k' = None" by (simp add: map_of_eq_None_iff)
  show ?case
    using Cons.IH [OF d] none by (auto simp: p)
qed

lemma distinct_cleanup:
  "distinct (map fst al) \<Longrightarrow>
   distinct (map fst (filter P (map (\<lambda>(key, r). (key, f r)) al)))"
proof -
  assume d: "distinct (map fst al)"
  have "map fst (map (\<lambda>(key, r). (key, f r)) al) = map fst al"
    by (induction al) auto
  with d have "distinct (map fst (map (\<lambda>(key, r). (key, f r)) al))" by (simp only:)
  then show ?thesis by (rule distinct_map_filter)
qed

lemma requestsOf_cleanup:
  assumes "distinctKeys S"
  shows "requestsOf (cleanup S later) k = filter (\<lambda>time. later - time < windowMs S) (requestsOf S k)"
  using assms map_of_cleanup [of "requests S" "filter (\<lambda>time. later - time < windowMs S)" k]
  by (auto simp: requestsOf_def cleanup_def distinctKeys_def split: option.splits)

lemma cleanup_params:
  "windowMs (cleanup S later) = windowMs S" "maxRequests (cleanup S later) = maxRequests S"
  by (simp_all add: cleanup_def)

lemma distinctKeys_cleanup: "distinctKeys S \<Longrightarrow> distinctKeys (cleanup S later)"
  by (simp add: distinctKeys_def cleanup_def distinct_cleanup)

lemma check_params:
  "windowMs (snd (check S now later key)) = windowMs S"
  "maxRequests (snd (check S now later key)) = maxRequests S"
  by (simp_all add: check_def Let_def cleanup_params)

lemma distinctKeys_check: "distinctKeys S \<Longrightarrow> distinctKeys (snd (check S now later key))"
proof -
  assume d: "distinctKeys S"
  let ?S' = "S\<lparr>requests := AList.update key (filter (\<lambda>time. now - time < windowMs S) (requestsOf S key) @ [now]) (requests S)\<rparr>"
  have d': "distinctKeys ?S'" using d by (simp add: distinctKeys_def distinct_update)
  then have "distinctKeys (cleanup ?S' later)" by (rule distinctKeys_cleanup)
  with d d' show ?thesis
    by (simp add: check_def Let_def requestsOf_def)
qed

lemma requestsOf_update:
  "requestsOf (S\<lparr>requests := AList.update key v (requests S)\<rparr>) k =
     (if k = key then v else requestsOf S k)"
  by (simp add: requestsOf_def update_conv')

lemma filter_valid_window:
  assumes "list_all (\<lambda>x. W \<le> t0 - x \<or> t0 \<le> x) xs" "t0 \<le> t" "t < t0 + W"
  shows "filter (\<lambda>x. t - x < W) xs = filter (\<lambda>x. (t0::int) \<le> x) xs"
  using assms by (induction xs) auto

lemma filter_new_later:
  assumes "later < t0 + W"
  shows "filter (\<lambda>x. (t0::int) \<le> x) (filter (\<lambda>x. later - x < W) xs) = filter (\<lambda>x. t0 \<le> x) xs"
  using assms by (induction xs) auto

lemma list_all_filter: "list_all P xs \<Longrightarrow> list_all P (filter Q xs)"
  by (induction xs) auto

lemma cleanup_window:
  assumes "distinctKeys S" "oldOrNew S k t0" "later < t0 + windowMs S"
  shows "oldOrNew (cleanup S later) k t0" and "inWindow (cleanup S later) k t0 = inWindow S k t0"
proof -
  have r: "requestsOf (cleanup S later) k =
      filter (\<lambda>time. later - time < windowMs S) (requestsOf S k)"
    using assms(1) by (rule requestsOf_cleanup)
  show "oldOrNew (cleanup S later) k t0"
    using assms(2) unfolding oldOrNew_def r cleanup_params by (rule list_all_filter)
  show "inWindow (cleanup S later) k t0 = inWindow S k t0"
    unfolding inWindow_def r by (simp only: filter_new_later [OF assms(3)])
qed

lemma check_other:
  assumes "distinctKeys S" "oldOrNew S k t0" "later < t0 + windowMs S" "key \<noteq> k"
  shows "oldOrNew (snd (check S now later key)) k t0"
    and "inWindow (snd (check S now later key)) k t0 = inWindow S k t0"
proof -
  let ?v = "filter (\<lambda>time. now - time < windowMs S) (requestsOf S key) @ [now]"
  let ?S' = "S\<lparr>requests := AList.update key ?v (requests S)\<rparr>"
  have d': "distinctKeys ?S'" using assms(1) by (simp add: distinctKeys_def distinct_update)
  have r: "requestsOf ?S' k = requestsOf S k" using assms(4) by (simp add: requestsOf_update)
  have o': "oldOrNew ?S' k t0" using assms(2) by (simp add: oldOrNew_def r)
  have i': "inWindow ?S' k t0 = inWindow S k t0" by (simp add: inWindow_def r)
  have l': "later < t0 + windowMs ?S'" using assms(3) by simp
  note c = cleanup_window [OF d' o' l']
  show "oldOrNew (snd (check S now later key)) k t0"
    using assms(2) o' c(1) by (simp add: check_def Let_def requestsOf_def)
  show "inWindow (snd (check S now later key)) k t0 = inWindow S k t0"
    using i' c(2) by (simp add: check_def Let_def requestsOf_def)
qed

lemma check_same:
  assumes "distinctKeys S" "oldOrNew S k t0" "later < t0 + windowMs S"
    "t0 \<le> now" "now < t0 + windowMs S"
  shows "fst (check S now later k) = (inWindow S k t0 < maxRequests S)"
    and "oldOrNew (snd (check S now later k)) k t0"
    and "inWindow (snd (check S now later k)) k t0 =
           (if inWindow S k t0 < maxRequests S then Suc (inWindow S k t0) else inWindow S k t0)"
proof -
  let ?valid = "filter (\<lambda>time. now - time < windowMs S) (requestsOf S k)"
  let ?S' = "S\<lparr>requests := AList.update k (?valid @ [now]) (requests S)\<rparr>"
  have v: "?valid = filter (\<lambda>x. t0 \<le> x) (requestsOf S k)"
    using assms(2,4,5) unfolding oldOrNew_def by (rule filter_valid_window)
  have d': "distinctKeys ?S'" using assms(1) by (simp add: distinctKeys_def distinct_update)
  have r: "requestsOf ?S' k = ?valid @ [now]" by (simp add: requestsOf_update)
  have o': "oldOrNew ?S' k t0"
    using assms(2,4) by (simp add: oldOrNew_def r list_all_filter)
  have "filter (\<lambda>x. t0 \<le> x) (?valid @ [now]) = filter (\<lambda>x. t0 \<le> x) (requestsOf S k) @ [now]"
    using assms(4) by (simp add: v)
  then have i': "inWindow ?S' k t0 = Suc (inWindow S k t0)"
    by (simp only: inWindow_def r length_append_singleton)
  have l': "later < t0 + windowMs ?S'" using assms(3) by simp
  note c = cleanup_window [OF d' o' l']
  show "fst (check S now later k) = (inWindow S k t0 < maxRequests S)"
    using v by (auto simp: check_def Let_def requestsOf_def inWindow_def)
  show "oldOrNew (snd (check S now later k)) k t0"
    using assms(2) o' c(1) by (simp add: check_def Let_def requestsOf_def)
  show "inWindow (snd (check S now later k)) k t0 =
           (if inWindow S k t0 < maxRequests S then Suc (inWindow S k t0) else inWindow S k t0)"
    using v i' c(2) by (auto simp: check_def Let_def requestsOf_def inWindow_def)
qed

lemma clientChecks_Cons:
  "clientChecks k S (call # calls) =
     (if checkKey call = k then [fst (check S (checkTime call) (cleanupTime call) (checkKey call))]
      else []) @
     clientChecks k (snd (check S (checkTime call) (cleanupTime call) (checkKey call))) calls"
  by (simp add: case_prod_beta)

lemma clientChecks_window:
  assumes "distinctKeys S" "oldOrNew S k t0"
    and "list_all (\<lambda>call. t0 \<le> checkTime call \<and> checkTime call < t0 + windowMs S \<and>
                           cleanupTime call < t0 + windowMs S) calls"
  shows "clientChecks k S calls =
           map (\<lambda>i. inWindow S k t0 + i < maxRequests S) [0..<length (clientChecks k S calls)]"
  using assms
proof (induction calls arbitrary: S)
  case Nil
  then show ?case by simp
next
  case (Cons call calls)
  let ?now = "checkTime call" and ?later = "cleanupTime call" and ?key = "checkKey call"
  define ok where ok: "ok = fst (check S ?now ?later ?key)"
  define S' where S': "S' = snd (check S ?now ?later ?key)"
  have ch: "clientChecks k S (call # calls) = (if ?key = k then [ok] else []) @ clientChecks k S' calls"
    unfolding ok S' by (rule clientChecks_Cons)
  have p: "windowMs S' = windowMs S" "maxRequests S' = maxRequests S"
    by (simp_all add: S' check_params)
  from Cons.prems(3) have t: "t0 \<le> ?now" "?now < t0 + windowMs S" "?later < t0 + windowMs S"
    and rest: "list_all (\<lambda>call. t0 \<le> checkTime call \<and> checkTime call < t0 + windowMs S' \<and>
                           cleanupTime call < t0 + windowMs S') calls"
    by (simp_all add: p)
  have d': "distinctKeys S'" unfolding S' using Cons.prems(1) by (rule distinctKeys_check)
  show ?case
  proof (cases "?key = k")
    case False
    from check_other [OF Cons.prems(1,2) t(3) False]
    have o': "oldOrNew S' k t0" and i': "inWindow S' k t0 = inWindow S k t0"
      by (simp_all add: S')
    from Cons.IH [OF d' o' rest] show ?thesis
      using False by (simp only: ch p i' if_False append_Nil)
  next
    case True
    from check_same [OF Cons.prems(1,2) t(3,1,2)] True
    have f: "ok = (inWindow S k t0 < maxRequests S)" and o': "oldOrNew S' k t0"
      and i': "inWindow S' k t0 =
           (if inWindow S k t0 < maxRequests S then Suc (inWindow S k t0) else inWindow S k t0)"
      by (simp_all add: ok S')
    from Cons.IH [OF d' o' rest]
    have ih: "clientChecks k S' calls =
       map (\<lambda>i. inWindow S' k t0 + i < maxRequests S) [0..<length (clientChecks k S' calls)]"
      by (simp add: p)
    show ?thesis
    proof (cases "inWindow S k t0 < maxRequests S")
      case lt: True
      have "clientChecks k S' calls =
          map (\<lambda>i. inWindow S k t0 + Suc i < maxRequests S) [0..<length (clientChecks k S' calls)]"
        using ih i' lt by simp
      then show ?thesis
        using True f lt by (simp add: ch map_upt_Suc del: upt_Suc clientChecks.simps)
    next
      case ge: False
      then have "\<And>i. (inWindow S k t0 + Suc i < maxRequests S) = (inWindow S k t0 + i < maxRequests S)"
        by simp
      then have "clientChecks k S' calls =
          map (\<lambda>i. inWindow S k t0 + Suc i < maxRequests S) [0..<length (clientChecks k S' calls)]"
        using ih i' ge by simp
      then show ?thesis
        using True f ge by (simp add: ch map_upt_Suc del: upt_Suc clientChecks.simps)
    qed
  qed
qed

subsection \<open>Runs in a window\<close>

lemma expectedAll_nth:
  "expectedAll W c rs \<Longrightarrow> i < length rs \<Longrightarrow>
     success (rs ! i) = (int i < c) \<and> 0 \<le> remaining (rs ! i) \<and>
     (success (rs ! i) \<or> (remaining (rs ! i) = 0 \<and> 0 < reset (rs ! i) \<and> reset (rs ! i) \<le> W))"
proof (induction rs arbitrary: c i)
  case Nil
  then show ?case by simp
next
  case (Cons r rs)
  show ?case
  proof (cases i)
    case 0
    with Cons.prems show ?thesis by (auto simp: expected_def split: if_splits)
  next
    case (Suc j)
    with Cons.prems have "expectedAll W (if 0 < c then c - 1 else c) rs" "j < length rs"
      by simp_all
    from Cons.IH [OF this] show ?thesis
      using Suc by (auto split: if_splits)
  qed
qed

lemma fresh_quota: "freshClient L k t0 \<Longrightarrow> quota L k t0 t0 (points L)"
  by (auto simp: freshClient_def quota_def split: option.splits)

lemma clientResults_fresh:
  assumes "freshClient (getLimiter R type) k t0"
    and "withinWindow t0 (duration (getLimiter R type) * 1000) (map fst calls)"
    and "i < length (clientResults k R type calls)"
  shows "success (clientResults k R type calls ! i) = (int i < points (getLimiter R type)) \<and>
         0 \<le> remaining (clientResults k R type calls ! i) \<and>
         (success (clientResults k R type calls ! i) \<or>
            (remaining (clientResults k R type calls ! i) = 0 \<and>
             0 < reset (clientResults k R type calls ! i) \<and>
             reset (clientResults k R type calls ! i) \<le> duration (getLimiter R type)))"
proof -
  have q: "quota (getLimiter R type) k t0 t0 (points (getLimiter R type))"
    using assms(1) by (rule fresh_quota)
  have s: "sorted (map fst calls)" using assms(2) by (simp add: withinWindow_def)
  have w: "list_all (\<lambda>call. t0 \<le> fst call \<and> t0 \<le> fst call \<and>
            fst call < t0 + duration (getLimiter R type) * 1000) calls"
    using assms(2) by (simp add: withinWindow_def list_all_iff)
  from clientResults_quota [OF q s w] assms(3) show ?thesis
    by (rule expectedAll_nth)
qed

lemma chat_POST_limited_denied:
  assumes "\<not> success res" "remaining res = 0"
  shows "status (fst (chat_POST_limited e up res b)) = 429"
    and "map_of (headers (fst (chat_POST_limited e up res b))) ''X-RateLimit-Remaining'' = Some ''0''"
  using assms
  by (simp_all add: chat_POST_limited_def jsonResponse_def getRateLimitHeaders_def showInt_def)

lemma clientChecks_fresh:
  assumes "distinctKeys S"
    and "list_all (\<lambda>x. windowMs S \<le> t0 - x) (requestsOf S k)"
    and "list_all (\<lambda>call. t0 \<le> checkTime call \<and> checkTime call < t0 + windowMs S \<and>
                           cleanupTime call < t0 + windowMs S) calls"
    and "i < length (clientChecks k S calls)"
  shows "clientChecks k S calls ! i = (i < maxRequests S)"
proof (cases "calls = []")
  case True
  with assms(4) show ?thesis by simp
next
  case False
  then obtain call where "call \<in> set calls" by (cases calls) auto
  with assms(3) have W: "0 < windowMs S" by (auto simp: list_all_iff)
  have o: "oldOrNew S k t0"
    using assms(2) by (auto simp: oldOrNew_def list_all_iff)
  have "filter (\<lambda>x. t0 \<le> x) (requestsOf S k) = []"
    using assms(2) W by (auto simp: list_all_iff filter_empty_conv)
  then have c: "inWindow S k t0 = 0" by (simp add: inWindow_def)
  have "clientChecks k S calls ! i =
        map (\<lambda>i. inWindow S k t0 + i < maxRequests S) [0..<length (clientChecks k S calls)] ! i"
    using clientChecks_window [OF assms(1) o assms(3)] by simp
  then show ?thesis using assms(4) by (simp add: c)
qed

lemma length_clientResults:
  "length (clientResults k R type calls) = length (filter (\<lambda>c. snd c = k) calls)"
  by (induction calls arbitrary: R) (auto split: prod.splits)

lemma length_clientChecks:
  "length (clientChecks k S calls) = length (filter (\<lambda>c. checkKey c = k) calls)"
  by (induction calls arbitrary: S) (auto split: prod.splits)

lemma rateLimitTry_remaining_nonneg: "0 \<le> remaining (fst (rateLimitTry R now ip type))"
  by (simp add: rateLimitTry_fst consume_def Let_def)

lemma rateLimitTry_denied_exhausted:
  assumes "\<not> success (fst (rateLimitTry R now ip type))"
  shows "\<exists>r. store (getLimiter (snd (rateLimitTry R now ip type)) type) (ip) = Some r \<and>
             remainingPts r \<le> 0"
  using assms
  by (auto simp: rateLimitTry_fst rateLimitTry_snd getLimiter_setLimiter consume_def Let_def
      split: if_splits)

lemma exhausted_other:
  assumes "store (getLimiter R type) k = Some r" "ip \<noteq> k"
  shows "store (getLimiter (snd (rateLimitTry R now ip type)) type) k = Some r"
  using assms by (simp add: rateLimitTry_snd getLimiter_setLimiter consume_other)

lemma exhausted_same:
  assumes "store (getLimiter R type) k = Some r" "remainingPts r \<le> 0" "now < resetAt r"
    "ip = k"
  shows "store (getLimiter (snd (rateLimitTry R now ip type)) type) k = Some r"
    and "\<not> success (fst (rateLimitTry R now ip type))"
  using assms
  by (simp_all add: rateLimitTry_fst rateLimitTry_snd getLimiter_setLimiter consume_def
      currentRecord_def Let_def)

lemma exhausted_denied:
  assumes "store (getLimiter R type) k = Some r" "remainingPts r \<le> 0"
    and "list_all (\<lambda>call. fst call < resetAt r) calls"
  shows "list_all (\<lambda>res. success res = False) (clientResults k R type calls)"
  using assms
proof (induction calls arbitrary: R)
  case Nil
  then show ?case by simp
next
  case (Cons call calls)
  define res where "res = fst (rateLimitTry R (fst call) (snd call) type)"
  define R' where "R' = snd (rateLimitTry R (fst call) (snd call) type)"
  have rl: "rateLimitTry R (fst call) (snd call) type = (res, R')"
    by (simp add: res_def R'_def)
  have cr: "clientResults k R type (call # calls) =
      (if snd call = k then [res] else []) @ clientResults k R' type calls"
    by (simp add: rl)
  from Cons.prems(3) have now: "fst call < resetAt r"
    and rest: "list_all (\<lambda>call. fst call < resetAt r) calls" by simp_all
  show ?case
  proof (cases "snd call = k")
    case False
    have "store (getLimiter R' type) k = Some r"
      unfolding R'_def using Cons.prems(1) False by (rule exhausted_other)
    from Cons.IH [OF this Cons.prems(2) rest] show ?thesis
      using False by (simp add: cr del: clientResults.simps)
  next
    case True
    from exhausted_same [OF Cons.prems(1,2) now True]
    have s: "store (getLimiter R' type) k = Some r" and d: "\<not> success res"
      by (simp_all add: res_def R'_def)
    from Cons.IH [OF s Cons.prems(2) rest] d show ?thesis
      using True by (simp add: cr del: clientResults.simps)
  qed
qed

lemma window_elapsed_resets:
  assumes "freshClient (getLimiter R type) (ip) now"
    and "0 < points (getLimiter R type)"
  shows "success (fst (rateLimitTry R now ip type)) \<and>
         remaining (fst (rateLimitTry R now ip type)) = points (getLimiter R type) - 1 \<and>
         reset (fst (rateLimitTry R now ip type)) = duration (getLimiter R type)"
  using assms
  by (auto simp: rateLimitTry_fst consume_def currentRecord_def Let_def freshClient_def
      ceilSeconds_def split: option.splits)

lemma clientChecks_exhausted:
  assumes "distinctKeys S" "oldOrNew S k t0" "maxRequests S \<le> inWindow S k t0"
    and "list_all (\<lambda>call. t0 \<le> checkTime call \<and> checkTime call < t0 + windowMs S \<and>
                           cleanupTime call < t0 + windowMs S) calls"
  shows "list_all (\<lambda>ok. ok = False) (clientChecks k S calls)"
proof -
  have "clientChecks k S calls =
      map (\<lambda>i. inWindow S k t0 + i < maxRequests S) [0..<length (clientChecks k S calls)]"
    using assms(1,2,4) by (rule clientChecks_window)
  moreover have "\<And>i. (inWindow S k t0 + i < maxRequests S) = False"
    using assms(3) by simp
  ultimately have "clientChecks k S calls = map (\<lambda>i. False) [0..<length (clientChecks k S calls)]"
    by simp
  then have "set (clientChecks k S calls) \<subseteq> {False}"
    by (metis (no_types, lifting) image_subset_iff set_map singletonI)
  then show ?thesis by (auto simp: list_all_iff)
qed

lemma check_after_window:
  assumes "list_all (\<lambda>x. windowMs S \<le> now - x) (requestsOf S k)" "0 < maxRequests S"
  shows "fst (check S now later k)"
proof -
  have "filter (\<lambda>time. now - time < windowMs S) (requestsOf S k) = []"
    using assms(1) by (auto simp: list_all_iff filter_empty_conv)
  then show ?thesis
    using assms(2) by (simp add: check_def Let_def requestsOf_def)
qed

lemma rateLimitTry_zero_exhausted:
  assumes "remaining (fst (rateLimitTry R now ip type)) = 0"
  shows "\<exists>r. store (getLimiter (snd (rateLimitTry R now ip type)) type) (ip) = Some r \<and>
             remainingPts r \<le> 0"
  using assms
  by (auto simp: rateLimitTry_fst rateLimitTry_snd getLimiter_setLimiter consume_def Let_def
      split: if_splits)

subsection \<open>rateLimit as the handlers call it\<close>

lemma getClientIp_throws: "getClientIp req = Inl ReferenceError"
  by (simp add: getClientIp_def NextRequest_def)

lemma rateLimit_throws: "rateLimit R now req type = Inl ReferenceError"
  by (simp add: rateLimit_def getClientIp_throws)

lemma chat_POST_throws: "chat_POST e up R now req reqBody = (internalServerError, R)"
  by (simp add: chat_POST_def rateLimit_throws)

lemma chatResponses_throws:
  "chatResponses e R calls = replicate (length calls) (fst internalServerError)"
  by (induction calls arbitrary: R) (simp_all add: chat_POST_throws internalServerError_def)

text \<open>
  C1 fails on the code. \<open>rateLimit\<close> calls \<open>getClientIp\<close>, which evaluates the name
  \<open>NextRequest\<close> of a type-only import and throws, so no request reaches
  \<open>limiter.consume\<close>: the chat handler answers every request of every run from its
  outer \<open>catch\<close>, with status 500, the message \<open>Internal server error\<close> and no
  header. Of eleven chat requests of one client within a minute the 11th is answered
  with 500, not 429, and without \<open>X-RateLimit-Remaining\<close>; the first ten are not
  admitted either.
\<close>

theorem chat_requests_never_limited:
  "chatResponses e R calls =
     replicate (length calls) (jsonResponse (errorBody ''Internal server error'') 500 []) \<and>
   length (chatResponses vercelEnv initialRateLimiters elevenChatCalls) = 11 \<and>
   status (chatResponses vercelEnv initialRateLimiters elevenChatCalls ! 10) = 500 \<and>
   map_of (headers (chatResponses vercelEnv initialRateLimiters elevenChatCalls ! 10))
     ''X-RateLimit-Remaining'' = None \<and>
   status (chatResponses vercelEnv initialRateLimiters elevenChatCalls ! 0) = 500"
proof -
  have all: "chatResponses e R calls =
     replicate (length calls) (jsonResponse (errorBody ''Internal server error'') 500 [])" for e R calls
    by (simp add: chatResponses_throws internalServerError_def)
  have len: "length elevenChatCalls = 11" by (simp add: elevenChatCalls_def)
  have nth: "chatResponses vercelEnv initialRateLimiters elevenChatCalls ! i =
      jsonResponse (errorBody ''Internal server error'') 500 []" if "i < 11" for i
    using that by (simp add: all len)
  show ?thesis
    by (simp add: nth) (simp add: all len jsonResponse_def)
qed

text \<open>
  C5 fails on the code. \<open>rateLimit\<close> throws a \<open>ReferenceError\<close> for every state of the
  limiters, every time, request and policy, before it consumes: it reports no remaining
  quota and resets none. The client 203.0.113.7 has used up its chat quota until the
  instant 60000; at that instant its window has elapsed, and the \<open>try\<close> block of
  \<open>rateLimit\<close> would admit the client with 9 of 10 points remaining, but the call of
  \<open>rateLimit\<close> throws.
\<close>

theorem rateLimit_reports_no_quota:
  "rateLimit R now req type = Inl ReferenceError \<and>
   ipFromHeaders exampleRequest = ''203.0.113.7'' \<and>
   freshClient (getLimiter exhaustedLimiters chat) ''203.0.113.7'' 60000 \<and>
   fst (rateLimitTry exhaustedLimiters 60000 ''203.0.113.7'' chat) =
     \<lparr>success = True, limit = 10, remaining = 9, reset = 60\<rparr> \<and>
   rateLimit exhaustedLimiters 60000 exampleRequest chat = Inl ReferenceError"
proof (intro conjI)
  show "rateLimit R now req type = Inl ReferenceError" by (rule rateLimit_throws)
  show "ipFromHeaders exampleRequest = ''203.0.113.7''" by code_simp
  show "freshClient (getLimiter exhaustedLimiters chat) ''203.0.113.7'' 60000"
    by (simp add: freshClient_def exhaustedLimiters_def)
  show "fst (rateLimitTry exhaustedLimiters 60000 ''203.0.113.7'' chat) =
     \<lparr>success = True, limit = 10, remaining = 9, reset = 60\<rparr>"
    by (simp add: rateLimitTry_fst consume_def currentRecord_def Let_def exhaustedLimiters_def
        initialRateLimiters_def newRateLimiterMemory_def ceilSeconds_def)
  show "rateLimit exhaustedLimiters 60000 exampleRequest chat = Inl ReferenceError"
    by (rule rateLimit_throws)
qed

section \<open>Properties of the middleware\<close>

lemma startsWithCI_Cons:
  "startsWithCI (p # ps) s = (case s of [] \<Rightarrow> False | c # cs \<Rightarrow> foldCase c = p \<and> startsWithCI ps cs)"
  by (cases s) simp_all

lemma isAdminRoute_iff:
  "isAdminRoute req =
     (startsWithCI ''/admin'' (pathname (reqUrl req)) \<or>
      startsWithCI ''/api/admin'' (pathname (reqUrl req)))"
  by (simp add: isAdminRoute_def createRouteMatcher_def matchRoute_def foldCase_def
      asciiLowerTable_def)

lemma isPublicRoute_iff:
  "isPublicRoute req =
     (let p = pathname (reqUrl req) in
      (startsWithCI ''/'' p \<and> drop (length ''/'') p \<in> set [[], ''/'', ''#'', ''?'']) \<or>
      startsWithCI ''/sign-in'' p \<or> startsWithCI ''/sign-up'' p \<or>
      startsWithCI ''/api/public'' p \<or>
      (startsWithCI ''/mcp-security'' p \<and> drop (length ''/mcp-security'') p \<in> set [[], ''/'', ''#'', ''?'']) \<or>
      startsWithCI ''/security'' p \<or> startsWithCI ''/mcp-integration'' p)"
  by (simp add: isPublicRoute_def createRouteMatcher_def matchRoute_def foldCase_def
      asciiLowerTable_def Let_def)

lemma foldCase_not_a:
  "foldCase CHR ''/'' \<noteq> CHR ''a''" "foldCase CHR ''#'' \<noteq> CHR ''a''" "foldCase CHR ''?'' \<noteq> CHR ''a''"
  by (simp_all add: foldCase_def asciiLowerTable_def)

lemma admin_not_public: "isAdminRoute req \<Longrightarrow> \<not> isPublicRoute req"
  unfolding isAdminRoute_iff isPublicRoute_iff Let_def
  by (auto simp: startsWithCI_Cons foldCase_not_a split: list.splits)

lemma middleware_admin:
  assumes "isAdminRoute req"
  shows "middleware e a req =
     (case adminGate a req of
        Inl err \<Rightarrow> Inl err
      | Inr (Some resp) \<Rightarrow> Inr resp
      | Inr None \<Rightarrow> Inr (addSecurityHeaders e NextResponse_next))"
proof -
  have np: "\<not> isPublicRoute req" using assms by (rule admin_not_public)
  show ?thesis
    using assms np
    by (auto simp: middleware_def adminGate_def split: sum.splits option.splits)
qed

text \<open>
  C3: for every request whose path matches an admin route. When no identity is resolved,
  the middleware redirects to the sign-in page of the request's origin, with the original
  URL as the query parameter \<open>redirect_url\<close>. When an identity is resolved, its role
  claim, a string, is put in lower case and compared with \<open>admin\<close>: the request is
  admitted when they are equal and redirected to \<open>/portfolio\<close> otherwise; an absent
  role counts as \<open>viewer\<close> and is redirected. \<open>Admin\<close> is admitted, since its lower
  case is \<open>admin\<close>; \<open>editor\<close> is not.
\<close>

theorem admin_route_gate:
  "(isAdminRoute req \<and> noUser a \<longrightarrow>
      middleware e a req =
        Inr (NextResponse_redirect
               \<lparr>origin = origin (reqUrl req), pathname = ''/sign-in'',
                searchParams = [(''redirect_url'', href (reqUrl req))]\<rparr>)) \<and>
   (isAdminRoute req \<and> \<not> noUser a \<and> roleOf a = Some (JStr r) \<and> r \<noteq> [] \<longrightarrow>
      middleware e a req =
        (if toLowerCase r = ''admin'' then Inr (addSecurityHeaders e NextResponse_next)
         else Inr (NextResponse_redirect
                     \<lparr>origin = origin (reqUrl req), pathname = ''/portfolio'',
                      searchParams = []\<rparr>))) \<and>
   (isAdminRoute req \<and> \<not> noUser a \<and> roleOf a = None \<longrightarrow>
      roleClaim a = Inr ''viewer'' \<and>
      middleware e a req =
        Inr (NextResponse_redirect
               \<lparr>origin = origin (reqUrl req), pathname = ''/portfolio'', searchParams = []\<rparr>)) \<and>
   toLowerCase ''Admin'' = ''admin'' \<and> toLowerCase ''editor'' \<noteq> ''admin''"
proof (intro conjI impI)
  assume "isAdminRoute req \<and> noUser a"
  then have ad: "isAdminRoute req" and nu: "noUser a" by simp_all
  show "middleware e a req =
        Inr (NextResponse_redirect
               \<lparr>origin = origin (reqUrl req), pathname = ''/sign-in'',
                searchParams = [(''redirect_url'', href (reqUrl req))]\<rparr>)"
    using nu by (simp add: middleware_admin [OF ad] adminGate_def signInUrl_def newURL_def)
next
  assume "isAdminRoute req \<and> \<not> noUser a \<and> roleOf a = Some (JStr r) \<and> r \<noteq> []"
  then have ad: "isAdminRoute req" and u: "\<not> noUser a" and ro: "roleOf a = Some (JStr r)"
    and ne: "r \<noteq> []" by simp_all
  have "roleClaim a = Inr (toLowerCase r)" using ro ne by (simp add: roleClaim_def)
  then show "middleware e a req =
        (if toLowerCase r = ''admin'' then Inr (addSecurityHeaders e NextResponse_next)
         else Inr (NextResponse_redirect
                     \<lparr>origin = origin (reqUrl req), pathname = ''/portfolio'',
                      searchParams = []\<rparr>))"
    using u by (simp add: middleware_admin [OF ad] adminGate_def newURL_def)
next
  assume h: "isAdminRoute req \<and> \<not> noUser a \<and> roleOf a = None"
  then have ad: "isAdminRoute req" and u: "\<not> noUser a" and ro: "roleOf a = None" by simp_all
  have v: "toLowerCase ''viewer'' = ''viewer''" by code_simp
  show rc: "roleClaim a = Inr ''viewer''" using ro by (simp add: roleClaim_def v)
  show "middleware e a req =
        Inr (NextResponse_redirect
               \<lparr>origin = origin (reqUrl req), pathname = ''/portfolio'', searchParams = []\<rparr>)"
    using u rc by (simp add: middleware_admin [OF ad] adminGate_def newURL_def)
next
  show "toLowerCase ''Admin'' = ''admin''" by code_simp
  show "toLowerCase ''editor'' \<noteq> ''admin''" by code_simp
qed

text \<open>C3 at \<open>/admin/x\<close>: nobody signed in, the roles \<open>Admin\<close> and \<open>editor\<close>, and
  claims without a role.\<close>

theorem admin_route_gate_witness:
  "middleware devEnv \<lparr>userId = None, sessionClaims = None\<rparr> adminRequest =
     Inr (NextResponse_redirect
            \<lparr>origin = ''https://example.org'', pathname = ''/sign-in'',
             searchParams = [(''redirect_url'', ''https://example.org/admin/x'')]\<rparr>) \<and>
   middleware devEnv (userWithRole ''Admin'') adminRequest =
     Inr (addSecurityHeaders devEnv NextResponse_next) \<and>
   middleware devEnv (userWithRole ''editor'') adminRequest =
     Inr (NextResponse_redirect
            \<lparr>origin = ''https://example.org'', pathname = ''/portfolio'', searchParams = []\<rparr>) \<and>
   middleware devEnv \<lparr>userId = Some ''user_1'', sessionClaims = Some (JObj [])\<rparr> adminRequest =
     Inr (NextResponse_redirect
            \<lparr>origin = ''https://example.org'', pathname = ''/portfolio'', searchParams = []\<rparr>)"
proof -
  let ?anon = "\<lparr>userId = None, sessionClaims = None\<rparr>"
  let ?plain = "\<lparr>userId = Some ''user_1'', sessionClaims = Some (JObj [])\<rparr>"
  have ad: "isAdminRoute adminRequest" by code_simp
  have o: "origin (reqUrl adminRequest) = ''https://example.org''"
    and h: "href (reqUrl adminRequest) = ''https://example.org/admin/x''"
    by (simp_all add: adminRequest_def href_def)
  have nu: "noUser ?anon" by (simp add: noUser_def orElse_def)
  have u: "\<not> noUser (userWithRole r)" for r
    by (simp add: noUser_def orElse_def userWithRole_def)
  have u': "\<not> noUser ?plain" by (simp add: noUser_def orElse_def)
  have ro: "roleOf (userWithRole r) = Some (JStr r)" for r
    by (simp add: roleOf_def userWithRole_def)
  have ro': "roleOf ?plain = None" by (simp add: roleOf_def)
  have ne: "''Admin'' \<noteq> []" "''editor'' \<noteq> []" by simp_all
  have lc: "toLowerCase ''Admin'' = ''admin''" "toLowerCase ''editor'' \<noteq> ''admin''"
    by code_simp+
  have 1: "middleware devEnv ?anon adminRequest =
     Inr (NextResponse_redirect
            \<lparr>origin = ''https://example.org'', pathname = ''/sign-in'',
             searchParams = [(''redirect_url'', ''https://example.org/admin/x'')]\<rparr>)"
    using admin_route_gate [of adminRequest ?anon devEnv] ad nu by (simp add: o h)
  have 2: "middleware devEnv (userWithRole ''Admin'') adminRequest =
     Inr (addSecurityHeaders devEnv NextResponse_next)"
    using admin_route_gate [of adminRequest "userWithRole ''Admin''" devEnv "''Admin''"]
      ad u ro ne(1) lc(1) by (simp add: o h)
  have 3: "middleware devEnv (userWithRole ''editor'') adminRequest =
     Inr (NextResponse_redirect
            \<lparr>origin = ''https://example.org'', pathname = ''/portfolio'', searchParams = []\<rparr>)"
    using admin_route_gate [of adminRequest "userWithRole ''editor''" devEnv "''editor''"]
      ad u ro ne(2) lc(2) by (simp add: o h)
  have 4: "middleware devEnv ?plain adminRequest =
     Inr (NextResponse_redirect
            \<lparr>origin = ''https://example.org'', pathname = ''/portfolio'', searchParams = []\<rparr>)"
    using admin_route_gate [of adminRequest ?plain devEnv] ad u' ro' by (simp add: o h)
  from 1 2 3 4 show ?thesis by blast
qed

section \<open>Properties of the handlers\<close>

subsection \<open>The honeypot of the contact form\<close>









subsection \<open>The chat schema\<close>




lemma parseChatMessage_Some_valid:
  "parseChatMessage m = Some msg \<Longrightarrow> validChatMessage m"
  by (cases m) (auto simp: chatRoles_def split: option.splits json.splits if_splits)





subsection \<open>Heuristic checks on sanitized text\<close>













subsection \<open>Bounds on the number of messages\<close>








subsection \<open>Error responses\<close>











end
